theory Spec2Isabelle
  imports Main "HOL-Library.AList" "HOL-Library.Word"
begin

section \<open>Route metadata\<close>

text \<open>
  The descriptors read by \<^verbatim>\<open>generateSpec.ts\<close>. Their TypeScript declarations
  (\<^verbatim>\<open>IRoute\<close> and the metadata argument types of the routing framework) are
  imported by the source; only the fields the source reads are kept. An optional
  field is an \<open>option\<close>, \<open>None\<close> standing for \<^verbatim>\<open>undefined\<close>.
\<close>

text \<open>
  A class or constructor as recovered by reflection. The source reads two things of
  it: its \<^verbatim>\<open>name\<close> and whether lodash's \<^verbatim>\<open>isNumber\<close> accepts its
  \<^verbatim>\<open>prototype\<close> (true of \<^verbatim>\<open>Number\<close>).
\<close>

record typecls =
  t_name :: string
  t_prototypeIsNumber :: bool

text \<open>A reference to the object that declares a method.\<close>

type_synonym objref = nat

text \<open>
  The reflection store, \<^verbatim>\<open>Reflect.getMetadata('design:paramtypes', target, property)\<close>:
  the declared parameter types of a method, or \<open>None\<close> (\<^verbatim>\<open>undefined\<close>) when
  nothing was recorded.
\<close>

type_synonym metadata = "objref \<Rightarrow> string \<Rightarrow> typecls list option"

record action =
  a_type :: string
  a_route :: string
  a_method :: string
  a_target :: typecls

record controller =
  c_type :: string
  c_route :: string
  c_target :: typecls

record param =
  p_index :: nat
  p_name :: "string option"
  p_type :: string
  p_required :: "bool option"
  p_object :: objref
  p_method :: string

text \<open>
  The value of a response handler is untyped in the source (\<^verbatim>\<open>any\<close>). Modelled
  are \<^verbatim>\<open>undefined\<close>, \<^verbatim>\<open>null\<close>, booleans, strings and the numbers that are
  32-bit signed integers (HTTP status codes among them), whose string form is their
  decimal numeral. Other numbers, whose string form depends on their floating-point
  representation, and objects are not.
\<close>

datatype hvalue = HUndefined | HNull | HBool bool | HStr string | HInt "32 word"

record handler =
  h_type :: string
  h_value :: hvalue

record paramOptions =
  po_required :: "bool option"

record defaults =
  d_paramOptions :: "paramOptions option"

record options =
  o_routePrefix :: "string option"
  o_defaults :: "defaults option"

record route =
  action :: action
  controller :: controller
  options :: options
  params :: "param list"
  responseHandlers :: "handler list"

section \<open>JavaScript values\<close>

text \<open>
  The OpenAPI fragments are plain object literals. An object is an association list
  with distinct keys, kept in insertion order (JavaScript itself enumerates
  integer-like keys first; what is proved below is which keys an object has and
  what they hold). \<open>JExotic\<close> stands for a value outside this fragment, such as
  the array carrying named properties that lodash's \<^verbatim>\<open>merge\<close> produces when it
  merges an object into an array.
\<close>

datatype jsval =
    JUndefined
  | JBool bool
  | JStr string
  | JArr "jsval list"
  | JObj "(string \<times> jsval) list"
  | JExotic

datatype error = TypeError

text \<open>Reading a property: \<open>None\<close> when the object has no such key.\<close>

fun getProp :: "jsval \<Rightarrow> string \<Rightarrow> jsval option" where
  "getProp (JObj kvs) k = map_of kvs k"
| "getProp _ k = None"

fun ownKeys :: "jsval \<Rightarrow> string list" where
  "ownKeys (JObj kvs) = map fst kvs"
| "ownKeys _ = []"

subsection \<open>String coercion\<close>

definition digit :: "nat \<Rightarrow> char" where
  "digit d = char_of (48 + d)"

function show_nat :: "nat \<Rightarrow> string" where
  "show_nat n = (if n < 10 then [digit n] else show_nat (n div 10) @ [digit (n mod 10)])"
  by pat_completeness auto
termination
  by (relation "measure id") auto

declare show_nat.simps [simp del]

text \<open>\<^verbatim>\<open>value + ''\<close>, and the coercion of a computed property key.\<close>

fun toString :: "hvalue \<Rightarrow> string" where
  "toString HUndefined = ''undefined''"
| "toString HNull = ''null''"
| "toString (HBool b) = (if b then ''true'' else ''false'')"
| "toString (HStr s) = s"
| "toString (HInt w) =
     (if sint w < 0 then CHR ''-'' # show_nat (nat (- sint w)) else show_nat (nat (sint w)))"

section \<open>Required-resolution\<close>

text \<open>\<^verbatim>\<open>_.get(route.options, 'defaults.paramOptions.required')\<close>.\<close>

definition globalRequired :: "route \<Rightarrow> bool option" where
  "globalRequired r =
     (case o_defaults (options r) of
        None \<Rightarrow> None
      | Some d \<Rightarrow> (case d_paramOptions d of None \<Rightarrow> None | Some po \<Rightarrow> po_required po))"

text \<open>JavaScript truthiness of an optional boolean.\<close>

fun truthy :: "bool option \<Rightarrow> bool" where
  "truthy (Some True) = True"
| "truthy _ = False"

text \<open>
  \<^verbatim>\<open>globalRequired ? meta.required !== false : !!meta.required\<close>; the argument is
  the \<^verbatim>\<open>required\<close> flag of the descriptor.
\<close>

definition isRequired :: "bool option \<Rightarrow> route \<Rightarrow> bool" where
  "isRequired required r =
     (if truthy (globalRequired r) then required \<noteq> Some False else truthy required)"

section \<open>Responses\<close>

definition getResponses :: "route \<Rightarrow> jsval" where
  "getResponses r =
     (let isJSON = (c_type (controller r) = ''json'');
          defaultContentType = (if isJSON then ''application/json'' else ''text/html; charset=utf-8'');
          contentMeta = find (\<lambda>h. h_type h = ''content-type'') (responseHandlers r);
          contentType = (case contentMeta of Some m \<Rightarrow> toString (h_value m) | None \<Rightarrow> defaultContentType);
          successMeta = find (\<lambda>h. h_type h = ''success-code'') (responseHandlers r);
          successStatus = (case successMeta of Some m \<Rightarrow> toString (h_value m) | None \<Rightarrow> ''200'')
      in JObj [(successStatus,
                JObj [(''content'', JObj [(contentType, JObj [])]),
                      (''description'', JStr ''Successful response'')])])"

section \<open>Paths\<close>

text \<open>
  The character class \<^verbatim>\<open>[A-Za-z0-9_]\<close>. The \<^verbatim>\<open>i\<close> flag of the two regular
  expressions adds nothing to it: without the \<^verbatim>\<open>u\<close> flag no character outside
  ASCII folds onto an ASCII one.
\<close>

definition isUpper :: "char \<Rightarrow> bool" where
  "isUpper c = (65 \<le> (of_char c :: nat) \<and> (of_char c :: nat) \<le> 90)"

definition isLower :: "char \<Rightarrow> bool" where
  "isLower c = (97 \<le> (of_char c :: nat) \<and> (of_char c :: nat) \<le> 122)"

definition isDigit :: "char \<Rightarrow> bool" where
  "isDigit c = (48 \<le> (of_char c :: nat) \<and> (of_char c :: nat) \<le> 57)"

definition isIdent :: "char \<Rightarrow> bool" where
  "isIdent c = (isUpper c \<or> isLower c \<or> isDigit c \<or> c = CHR ''_'')"

text \<open>
  \<^verbatim>\<open>path.replace(/:([A-Za-z0-9_]+)/gi, '{$1}')\<close>: scanning from the left, a colon
  followed by at least one identifier character is replaced, together with the
  longest run of identifier characters after it, by that run in braces; every other
  character is copied.
\<close>

function replaceParams :: "string \<Rightarrow> string" where
  "replaceParams [] = []"
| "replaceParams (c # cs) =
     (if c = CHR '':'' \<and> takeWhile isIdent cs \<noteq> []
      then CHR ''{'' # takeWhile isIdent cs @ CHR ''}'' # replaceParams (dropWhile isIdent cs)
      else c # replaceParams cs)"
  by pat_completeness auto
termination
  by (relation "measure length") (auto simp: length_dropWhile_le less_Suc_eq_le)

definition getFullPath :: "route \<Rightarrow> string" where
  "getFullPath r =
     (let path = (case o_routePrefix (options r) of Some p \<Rightarrow> p | None \<Rightarrow> [])
                 @ c_route (controller r) @ a_route (action r)
      in replaceParams path)"

text \<open>
  \<^verbatim>\<open>path.match(/{[A-Za-z0-9_]+}/gi)\<close>: the matched substrings from left to right,
  none when nothing matches (lodash's \<^verbatim>\<open>map\<close> turns the \<^verbatim>\<open>null\<close> of that
  case into the empty array).
\<close>

function matchPlaceholders :: "string \<Rightarrow> string list" where
  "matchPlaceholders [] = []"
| "matchPlaceholders (c # cs) =
     (if c = CHR ''{'' \<and> takeWhile isIdent cs \<noteq> []
         \<and> (case dropWhile isIdent cs of [] \<Rightarrow> False | d # ds \<Rightarrow> d = CHR ''}'')
      then (CHR ''{'' # takeWhile isIdent cs @ ''}'') # matchPlaceholders (tl (dropWhile isIdent cs))
      else matchPlaceholders cs)"
  by pat_completeness auto
termination
proof (relation "measure length")
  show "wf (measure length)" by simp
next
  fix c :: char and cs :: string
  have "length (tl (dropWhile isIdent cs)) \<le> length cs"
    using length_dropWhile_le [of isIdent cs] by simp
  then show "(tl (dropWhile isIdent cs), c # cs) \<in> measure length" by simp
next
  fix c :: char and cs :: string
  show "(cs, c # cs) \<in> measure length" by simp
qed

text \<open>\<^verbatim>\<open>d.slice(1, -1)\<close>.\<close>

definition slice1 :: "string \<Rightarrow> string" where
  "slice1 d = butlast (tl d)"

section \<open>Summary, tags and operation id\<close>

text \<open>
  lodash's \<^verbatim>\<open>upperFirst\<close>, \<^verbatim>\<open>capitalize\<close> and \<^verbatim>\<open>startCase\<close> on ASCII text.
  \<^verbatim>\<open>capitalize\<close> lower-cases the whole string and then upper-cases its first
  character. Text outside ASCII is not modelled: lodash replaces accented Latin
  letters by their base letters and keeps them, like other letters, inside a word,
  whereas every byte outside ASCII separates words here and is left alone by the
  case conversions.
\<close>

definition toUpper :: "char \<Rightarrow> char" where
  "toUpper c = (if isLower c then char_of ((of_char c :: nat) - 32) else c)"

definition toLower :: "char \<Rightarrow> char" where
  "toLower c = (if isUpper c then char_of ((of_char c :: nat) + 32) else c)"

fun upperFirst :: "string \<Rightarrow> string" where
  "upperFirst [] = []"
| "upperFirst (c # cs) = toUpper c # cs"

definition capitalize :: "string \<Rightarrow> string" where
  "capitalize s = upperFirst (map toLower s)"

text \<open>
  An English ordinal after a run of digits whose last digit is \<open>d\<close>: the suffix
  (\<^verbatim>\<open>1ST\<close>, \<^verbatim>\<open>2ND\<close>, \<^verbatim>\<open>3RD\<close>, otherwise \<^verbatim>\<open>TH\<close>, or the same in lower
  case) must not be followed by a digit or by a letter of its own case.
\<close>

definition ordSuffix :: "char \<Rightarrow> string" where
  "ordSuffix d = (if d = CHR ''1'' then ''ST'' else if d = CHR ''2'' then ''ND''
                  else if d = CHR ''3'' then ''RD'' else ''TH'')"

definition isOrdinal :: "char \<Rightarrow> string \<Rightarrow> bool" where
  "isOrdinal d rest =
     ((take 2 rest = ordSuffix d
         \<and> (case drop 2 rest of [] \<Rightarrow> True | x # _ \<Rightarrow> \<not> isUpper x \<and> \<not> isDigit x))
      \<or> (take 2 rest = map toLower (ordSuffix d)
         \<and> (case drop 2 rest of [] \<Rightarrow> True | x # _ \<Rightarrow> \<not> isLower x \<and> \<not> isDigit x)))"

text \<open>
  lodash's \<^verbatim>\<open>words\<close>: a word is a run of lower-case letters, optionally led by
  one capital; or a run of capitals, without its last one when a lower-case letter
  follows; or a run of digits, with its ordinal suffix if it has one. Every other
  ASCII character separates words.
\<close>

function unicodeWords :: "string \<Rightarrow> string list" where
  "unicodeWords [] = []"
| "unicodeWords (c # cs) =
     (if isLower c \<or> (isUpper c \<and> (case cs of [] \<Rightarrow> False | x # _ \<Rightarrow> isLower x))
      then (c # takeWhile isLower cs) # unicodeWords (dropWhile isLower cs)
      else if isUpper c then
        (let us = takeWhile isUpper cs; rest = dropWhile isUpper cs
         in if us \<noteq> [] \<and> (case rest of [] \<Rightarrow> False | x # _ \<Rightarrow> isLower x)
            then (c # butlast us) # unicodeWords (last us # rest)
            else (c # us) # unicodeWords rest)
      else if isDigit c then
        (let ds = takeWhile isDigit cs; rest = dropWhile isDigit cs
         in if isOrdinal (last (c # ds)) rest
            then (c # ds @ take 2 rest) # unicodeWords (drop 2 rest)
            else (c # ds) # unicodeWords rest)
      else unicodeWords cs)"
  by pat_completeness auto
termination
proof (relation "measure length", goal_cases)
  case 1
  show ?case by simp
next
  case (2 c cs)
  show ?case using length_dropWhile_le [of isLower cs] by simp
next
  case (3 c cs us rest)
  have "length (takeWhile isUpper cs) + length (dropWhile isUpper cs) = length cs"
    by (simp only: length_append [symmetric] takeWhile_dropWhile_id)
  then have "length us + length rest = length cs"
    using 3 by simp
  moreover have "us \<noteq> []"
    using 3 by simp
  ultimately have "length rest < length cs"
    by (cases us) auto
  then show ?case by simp
next
  case (4 c cs us rest)
  then show ?case using length_dropWhile_le [of isUpper cs] by simp
next
  case (5 c cs ds rest)
  then show ?case using length_dropWhile_le [of isDigit cs] by simp
next
  case (6 c cs ds rest)
  then show ?case using length_dropWhile_le [of isDigit cs] by simp
next
  case (7 c cs)
  show ?case by simp
qed

text \<open>Joining the words with single spaces.\<close>

fun joinWords :: "string list \<Rightarrow> string" where
  "joinWords [] = []"
| "joinWords [w] = w"
| "joinWords (w # ws) = w @ CHR '' '' # joinWords ws"

text \<open>
  \<^verbatim>\<open>startCase\<close>: apostrophes are removed, the string is split into words, the
  first letter of each word is upper-cased and the words are joined by spaces.
\<close>

definition startCase :: "string \<Rightarrow> string" where
  "startCase s = joinWords (map upperFirst (unicodeWords (filter (\<lambda>c. c \<noteq> CHR 0x27) s)))"

definition getSummary :: "route \<Rightarrow> string" where
  "getSummary r = capitalize (startCase (a_method (action r)))"

text \<open>\<^verbatim>\<open>name.replace(/Controller$/, '')\<close>.\<close>

definition dropControllerSuffix :: "string \<Rightarrow> string" where
  "dropControllerSuffix s =
     (if 10 \<le> length s \<and> drop (length s - 10) s = ''Controller''
      then take (length s - 10) s else s)"

definition getTags :: "route \<Rightarrow> string list" where
  "getTags r = [startCase (dropControllerSuffix (t_name (c_target (controller r))))]"

definition getOperationId :: "route \<Rightarrow> string" where
  "getOperationId r = t_name (a_target (action r)) @ ''.'' @ a_method (action r)"

section \<open>Type recovery\<close>

definition getParamTypes :: "metadata \<Rightarrow> objref \<Rightarrow> string \<Rightarrow> typecls list option" where
  "getParamTypes md target property = md target property"

text \<open>
  \<^verbatim>\<open>getParamTypes(object, method)[index]\<close>: indexing \<^verbatim>\<open>undefined\<close> throws;
  an index past the end of the array yields \<^verbatim>\<open>undefined\<close>.
\<close>

definition paramTypeAt :: "metadata \<Rightarrow> param \<Rightarrow> error + typecls option" where
  "paramTypeAt md meta =
     (case getParamTypes md (p_object meta) (p_method meta) of
        None \<Rightarrow> Inl TypeError
      | Some ts \<Rightarrow> Inr (if p_index meta < length ts then Some (ts ! p_index meta) else None))"

text \<open>
  Reading a property (\<^verbatim>\<open>.prototype\<close>, \<^verbatim>\<open>.name\<close>) of the recovered type throws
  when the type is \<^verbatim>\<open>undefined\<close>.
\<close>

fun deref :: "typecls option \<Rightarrow> error + typecls" where
  "deref None = Inl TypeError"
| "deref (Some t) = Inr t"

text \<open>The recovered type of a descriptor, ready for a property to be read.\<close>

definition recoverType :: "metadata \<Rightarrow> param \<Rightarrow> error + typecls" where
  "recoverType md meta =
     (case paramTypeAt md meta of Inl e \<Rightarrow> Inl e | Inr typeCls \<Rightarrow> deref typeCls)"

text \<open>\<^verbatim>\<open>_.isNumber(typeCls.prototype) ? 'number' : 'string'\<close>.\<close>

definition primitiveType :: "typecls \<Rightarrow> string" where
  "primitiveType typeCls = (if t_prototypeIsNumber typeCls then ''number'' else ''string'')"

text \<open>\<^verbatim>\<open>Array.prototype.map\<close> with a callback that may throw: the first throw ends it.\<close>

fun mapE :: "('a \<Rightarrow> error + 'b) \<Rightarrow> 'a list \<Rightarrow> error + 'b list" where
  "mapE f [] = Inr []"
| "mapE f (x # xs) =
     (case f x of
        Inl e \<Rightarrow> Inl e
      | Inr y \<Rightarrow> (case mapE f xs of Inl e \<Rightarrow> Inl e | Inr ys \<Rightarrow> Inr (y # ys)))"

section \<open>Parameters\<close>

definition makeRef :: "string \<Rightarrow> jsval" where
  "makeRef schemaName = JObj [(''$ref'', JStr (''#/components/schemas/'' @ schemaName))]"

text \<open>The parameter object literal \<^verbatim>\<open>{ in, name, required, schema }\<close>.\<close>

definition paramObject :: "string \<Rightarrow> string \<Rightarrow> bool \<Rightarrow> jsval \<Rightarrow> jsval" where
  "paramObject loc name required schema =
     JObj [(''in'', JStr loc), (''name'', JStr name), (''required'', JBool required),
           (''schema'', schema)]"

definition typeSchema :: "string \<Rightarrow> jsval" where
  "typeSchema t = JObj [(''type'', JStr t)]"

text \<open>The callback of \<^verbatim>\<open>paramNames.map\<close> in \<^verbatim>\<open>getPathParams\<close>.\<close>

definition pathParam :: "metadata \<Rightarrow> route \<Rightarrow> string \<Rightarrow> error + jsval" where
  "pathParam md r name =
     (case find (\<lambda>p. p_name p = Some name \<and> p_type p = ''param'') (params r) of
        None \<Rightarrow> Inr (paramObject ''path'' name True (typeSchema ''string''))
      | Some meta \<Rightarrow>
          (case recoverType md meta of
             Inl e \<Rightarrow> Inl e
           | Inr typeCls \<Rightarrow>
               Inr (paramObject ''path'' name (isRequired (p_required meta) r)
                      (typeSchema (primitiveType typeCls)))))"

definition getPathParams :: "metadata \<Rightarrow> route \<Rightarrow> error + jsval list" where
  "getPathParams md r =
     (let path = getFullPath r;
          paramNames = map slice1 (matchPlaceholders path)
      in mapE (pathParam md r) paramNames)"

text \<open>The callback of the \<^verbatim>\<open>map\<close> over the \<^verbatim>\<open>query\<close> descriptors.\<close>

definition queryParam :: "metadata \<Rightarrow> route \<Rightarrow> param \<Rightarrow> error + jsval" where
  "queryParam md r meta =
     (case recoverType md meta of
        Inl e \<Rightarrow> Inl e
      | Inr typeCls \<Rightarrow>
          Inr (paramObject ''query'' (case p_name meta of Some n \<Rightarrow> n | None \<Rightarrow> [])
                 (isRequired (p_required meta) r) (typeSchema (primitiveType typeCls))))"

definition getQueryParams :: "metadata \<Rightarrow> route \<Rightarrow> error + jsval list" where
  "getQueryParams md r =
     (case mapE (queryParam md r) (filter (\<lambda>p. p_type p = ''query'') (params r)) of
        Inl e \<Rightarrow> Inl e
      | Inr queries \<Rightarrow>
          (case find (\<lambda>p. p_type p = ''queries'') (params r) of
             None \<Rightarrow> Inr queries
           | Some queriesMeta \<Rightarrow>
               (case recoverType md queriesMeta of
                  Inl e \<Rightarrow> Inl e
                | Inr t \<Rightarrow>
                    Inr (queries @
                         [paramObject ''query'' (t_name t)
                            (isRequired (p_required queriesMeta) r) (makeRef (t_name t))]))))"

section \<open>Request body\<close>

text \<open>\<open>JUndefined\<close> is the result of the function falling off its end.\<close>

definition getRequestBody :: "metadata \<Rightarrow> route \<Rightarrow> error + jsval" where
  "getRequestBody md r =
     (case find (\<lambda>p. p_type p = ''body'') (params r) of
        None \<Rightarrow> Inr JUndefined
      | Some meta \<Rightarrow>
          (case recoverType md meta of
             Inl e \<Rightarrow> Inl e
           | Inr t \<Rightarrow>
               Inr (JObj [(''content'',
                            JObj [(''application/json'', JObj [(''schema'', makeRef (t_name t))])]),
                          (''description'', JStr (t_name t)),
                          (''required'', JBool (isRequired (p_required meta) r))])))"

section \<open>Operations\<close>

text \<open>
  lodash's \<^verbatim>\<open>isEmpty\<close>: true of \<^verbatim>\<open>undefined\<close>, of booleans, of the empty
  string, the empty array and the object without keys.
\<close>

fun isEmpty :: "jsval \<Rightarrow> bool" where
  "isEmpty JUndefined = True"
| "isEmpty (JBool b) = True"
| "isEmpty (JStr s) = (s = [])"
| "isEmpty (JArr xs) = (xs = [])"
| "isEmpty (JObj kvs) = (kvs = [])"
| "isEmpty JExotic = False"

definition omitBy :: "(string \<times> jsval) list \<Rightarrow> (jsval \<Rightarrow> bool) \<Rightarrow> jsval" where
  "omitBy object predicate = JObj (filter (\<lambda>(k, v). \<not> predicate v) object)"

text \<open>
  The object literal evaluates its properties in order, so the first call that
  throws ends \<^verbatim>\<open>getOperation\<close>. \<^verbatim>\<open>getRequestBody(route) || undefined\<close> is the
  request body itself: an object is truthy, and \<^verbatim>\<open>undefined\<close> stays.
\<close>

definition getOperation :: "metadata \<Rightarrow> route \<Rightarrow> error + jsval" where
  "getOperation md r =
     (case getPathParams md r of
        Inl e \<Rightarrow> Inl e
      | Inr pathParams \<Rightarrow>
          (case getQueryParams md r of
             Inl e \<Rightarrow> Inl e
           | Inr queryParams \<Rightarrow>
               (case getRequestBody md r of
                  Inl e \<Rightarrow> Inl e
                | Inr requestBody \<Rightarrow>
                    Inr (omitBy
                           [(''operationId'', JStr (getOperationId r)),
                            (''parameters'', JArr (pathParams @ queryParams)),
                            (''requestBody'', requestBody),
                            (''responses'', getResponses r),
                            (''summary'', JStr (getSummary r)),
                            (''tags'', JArr (map JStr (getTags r)))]
                           isEmpty))))"

section \<open>Merging the path fragments\<close>

text \<open>
  lodash's \<^verbatim>\<open>merge\<close> on the values above. \<open>mergeValue d s\<close> is the value a key of the
  destination has after the value \<open>s\<close> of that key in the source was merged into it;
  \<open>d\<close> is the key's value before, \<open>None\<close> when the destination did not have the
  key. Arrays and objects of the source are merged recursively (arrays index by
  index) into an array, respectively an object, of the destination and copied
  otherwise; \<^verbatim>\<open>undefined\<close> in the source leaves an existing value alone; any other
  source value is assigned.
\<close>

fun mergeValue :: "jsval option \<Rightarrow> jsval \<Rightarrow> jsval"
  and mergeObj :: "(string \<times> jsval) list \<Rightarrow> (string \<times> jsval) list \<Rightarrow> (string \<times> jsval) list"
  and mergeArr :: "jsval list \<Rightarrow> jsval list \<Rightarrow> jsval list"
where
  "mergeValue d JUndefined = (case d of Some v \<Rightarrow> v | None \<Rightarrow> JUndefined)"
| "mergeValue d (JBool b) = JBool b"
| "mergeValue d (JStr s) = JStr s"
| "mergeValue d (JArr ys) =
     (case d of
        Some (JArr xs) \<Rightarrow> JArr (mergeArr xs ys)
      | Some JExotic \<Rightarrow> JExotic
      | _ \<Rightarrow> JArr (mergeArr [] ys))"
| "mergeValue d (JObj kvs) =
     (case d of
        Some (JObj obj) \<Rightarrow> JObj (mergeObj obj kvs)
      | Some (JArr xs) \<Rightarrow> (if kvs = [] then JArr xs else JExotic)
      | Some JExotic \<Rightarrow> JExotic
      | _ \<Rightarrow> JObj (mergeObj [] kvs))"
| "mergeValue d JExotic = JExotic"
| "mergeObj obj [] = obj"
| "mergeObj obj ((k, v) # kvs) = mergeObj (AList.update k (mergeValue (map_of obj k) v) obj) kvs"
| "mergeArr xs [] = xs"
| "mergeArr [] (y # ys) = mergeValue None y # mergeArr [] ys"
| "mergeArr (x # xs) (y # ys) = mergeValue (Some x) y # mergeArr xs ys"

text \<open>One source merged into the destination; both are objects in \<^verbatim>\<open>getPaths\<close>.\<close>

fun baseMerge :: "jsval \<Rightarrow> jsval \<Rightarrow> jsval" where
  "baseMerge (JObj obj) (JObj kvs) = JObj (mergeObj obj kvs)"
| "baseMerge d s = JExotic"

text \<open>
  \<^verbatim>\<open>_.merge(...routePaths)\<close>: the first fragment is the destination, the others are
  merged into it from left to right; without any argument the result is the empty
  object.
\<close>

fun merge :: "jsval list \<Rightarrow> jsval" where
  "merge [] = JObj []"
| "merge (d # sources) = foldl baseMerge d sources"

section \<open>Paths object and document\<close>

text \<open>The fragment \<^verbatim>\<open>{ [getFullPath(route)]: { [route.action.type]: getOperation(route) } }\<close>.\<close>

definition routePath :: "metadata \<Rightarrow> route \<Rightarrow> error + jsval" where
  "routePath md r =
     (case getOperation md r of
        Inl e \<Rightarrow> Inl e
      | Inr operation \<Rightarrow> Inr (JObj [(getFullPath r, JObj [(a_type (action r), operation)])]))"

definition getPaths :: "metadata \<Rightarrow> route list \<Rightarrow> error + jsval" where
  "getPaths md routes =
     (case mapE (routePath md) routes of
        Inl e \<Rightarrow> Inl e
      | Inr routePaths \<Rightarrow> Inr (merge routePaths))"

definition getSpec :: "metadata \<Rightarrow> route list \<Rightarrow> error + jsval" where
  "getSpec md routes =
     (case getPaths md routes of
        Inl e \<Rightarrow> Inl e
      | Inr paths \<Rightarrow>
          Inr (JObj [(''components'', JObj [(''schemas'', JObj [])]),
                     (''info'', JObj [(''title'', JStr []), (''version'', JStr ''1.0.0'')]),
                     (''openapi'', JStr ''3.0.0''),
                     (''paths'', paths)]))"

section \<open>Notions of the specification\<close>

text \<open>
  The definitions of this section are not translated from the source: they say what
  the specification speaks about, so that the functions above can be compared with
  it.
\<close>

text \<open>The route prefix (empty when absent), the controller's route and the action's route.\<close>

definition routeConcat :: "route \<Rightarrow> string" where
  "routeConcat r =
     (case o_routePrefix (options r) of None \<Rightarrow> [] | Some p \<Rightarrow> p) @ c_route (controller r)
       @ a_route (action r)"

text \<open>
  The names of the \<^verbatim>\<open>{name}\<close> placeholders of a path, from left to right: an
  opening brace, a non-empty run of identifier characters, a closing brace.
\<close>

function placeholders :: "string \<Rightarrow> string list" where
  "placeholders [] = []"
| "placeholders (c # cs) =
     (if c = CHR ''{'' \<and> takeWhile isIdent cs \<noteq> [] \<and> take 1 (dropWhile isIdent cs) = ''}''
      then takeWhile isIdent cs # placeholders (drop 1 (dropWhile isIdent cs))
      else placeholders cs)"
  by pat_completeness auto
termination
proof (relation "measure length", goal_cases)
  case 1
  show ?case by simp
next
  case (2 c cs)
  show ?case using length_dropWhile_le [of isIdent cs] by simp
next
  case (3 c cs)
  show ?case by simp
qed

text \<open>
  The \<^verbatim>\<open>:name\<close> tokens of a path, by name and from left to right: what the
  pattern \<^verbatim>\<open>:([A-Za-z0-9_]+)\<close> captures.
\<close>

function colonTokens :: "string \<Rightarrow> string list" where
  "colonTokens [] = []"
| "colonTokens (c # cs) =
     (if c = CHR '':'' \<and> takeWhile isIdent cs \<noteq> []
      then takeWhile isIdent cs # colonTokens (dropWhile isIdent cs)
      else colonTokens cs)"
  by pat_completeness auto
termination
  by (relation "measure length") (auto simp: length_dropWhile_le less_Suc_eq_le)

text \<open>
  The names a path mentions, from left to right: those of its \<^verbatim>\<open>:name\<close> tokens and
  those of the \<^verbatim>\<open>{name}\<close> placeholders it already holds.
\<close>

function namedSegments :: "string \<Rightarrow> string list" where
  "namedSegments [] = []"
| "namedSegments (c # cs) =
     (if c = CHR '':'' \<and> takeWhile isIdent cs \<noteq> []
      then takeWhile isIdent cs # namedSegments (dropWhile isIdent cs)
      else if c = CHR ''{'' \<and> takeWhile isIdent cs \<noteq> [] \<and> take 1 (dropWhile isIdent cs) = ''}''
      then takeWhile isIdent cs # namedSegments (drop 1 (dropWhile isIdent cs))
      else namedSegments cs)"
  by pat_completeness auto
termination
proof (relation "measure length", goal_cases)
  case 1
  show ?case by simp
next
  case (2 c cs)
  show ?case using length_dropWhile_le [of isIdent cs] by simp
next
  case (3 c cs)
  show ?case using length_dropWhile_le [of isIdent cs] by simp
next
  case (4 c cs)
  show ?case by simp
qed

text \<open>
  The declared type of a parameter descriptor, when the reflection store has one at
  the descriptor's index.
\<close>

definition declaredType :: "metadata \<Rightarrow> param \<Rightarrow> typecls option" where
  "declaredType md meta =
     (case md (p_object meta) (p_method meta) of
        None \<Rightarrow> None
      | Some ts \<Rightarrow> (if p_index meta < length ts then Some (ts ! p_index meta) else None))"

text \<open>The first descriptor of path classification with a given name.\<close>

definition pathMeta :: "route \<Rightarrow> string \<Rightarrow> param option" where
  "pathMeta r name = find (\<lambda>p. p_type p = ''param'' \<and> p_name p = Some name) (params r)"

text \<open>
  The types the source reads can be recovered: those of the path descriptors that a
  placeholder matches, of every query descriptor, and of the first queries and the
  first body descriptor.
\<close>

definition pathTypesOk :: "metadata \<Rightarrow> route \<Rightarrow> bool" where
  "pathTypesOk md r =
     (\<forall>name \<in> set (placeholders (getFullPath r)).
        case pathMeta r name of None \<Rightarrow> True | Some meta \<Rightarrow> declaredType md meta \<noteq> None)"

definition queryTypesOk :: "metadata \<Rightarrow> route \<Rightarrow> bool" where
  "queryTypesOk md r =
     ((\<forall>p \<in> set (params r). p_type p = ''query'' \<longrightarrow> declaredType md p \<noteq> None)
      \<and> (case find (\<lambda>p. p_type p = ''queries'') (params r) of
           None \<Rightarrow> True | Some meta \<Rightarrow> declaredType md meta \<noteq> None))"

definition bodyTypeOk :: "metadata \<Rightarrow> route \<Rightarrow> bool" where
  "bodyTypeOk md r =
     (case find (\<lambda>p. p_type p = ''body'') (params r) of
        None \<Rightarrow> True | Some meta \<Rightarrow> declaredType md meta \<noteq> None)"

definition typesRecoverable :: "metadata \<Rightarrow> route \<Rightarrow> bool" where
  "typesRecoverable md r = (pathTypesOk md r \<and> queryTypesOk md r \<and> bodyTypeOk md r)"

text \<open>
  The parameter object the specification gives a placeholder: location
  \<^verbatim>\<open>path\<close>, required and of type \<^verbatim>\<open>string\<close> by default; with a matching path
  descriptor, required by the resolution rule and of type \<^verbatim>\<open>number\<close> when the
  declared type is number-like.
\<close>

definition specPathParam :: "metadata \<Rightarrow> route \<Rightarrow> string \<Rightarrow> jsval" where
  "specPathParam md r name =
     (case pathMeta r name of
        None \<Rightarrow>
          JObj [(''in'', JStr ''path''), (''name'', JStr name), (''required'', JBool True),
                (''schema'', JObj [(''type'', JStr ''string'')])]
      | Some meta \<Rightarrow>
          JObj [(''in'', JStr ''path''), (''name'', JStr name),
                (''required'', JBool (isRequired (p_required meta) r)),
                (''schema'',
                 JObj [(''type'',
                        JStr (case declaredType md meta of
                                Some t \<Rightarrow> (if t_prototypeIsNumber t then ''number'' else ''string'')
                              | None \<Rightarrow> ''string''))])])"

text \<open>The entry of a single-field query descriptor.\<close>

definition specQueryParam :: "metadata \<Rightarrow> route \<Rightarrow> param \<Rightarrow> jsval" where
  "specQueryParam md r meta =
     JObj [(''in'', JStr ''query''),
           (''name'', JStr (case p_name meta of None \<Rightarrow> [] | Some n \<Rightarrow> n)),
           (''required'', JBool (isRequired (p_required meta) r)),
           (''schema'',
            JObj [(''type'',
                   JStr (case declaredType md meta of
                           Some t \<Rightarrow> (if t_prototypeIsNumber t then ''number'' else ''string'')
                         | None \<Rightarrow> ''string''))])]"

text \<open>The entry of a queries descriptor whose declared type is \<open>t\<close>.\<close>

definition specQueriesParam :: "route \<Rightarrow> param \<Rightarrow> typecls \<Rightarrow> jsval" where
  "specQueriesParam r meta t =
     JObj [(''in'', JStr ''query''), (''name'', JStr (t_name t)),
           (''required'', JBool (isRequired (p_required meta) r)),
           (''schema'', JObj [(''$ref'', JStr (''#/components/schemas/'' @ t_name t))])]"

text \<open>A schema that carries a type, or is a reference object.\<close>

fun schemaOk :: "jsval \<Rightarrow> bool" where
  "schemaOk (JObj [(k, JStr v)]) = (k = ''type'' \<or> k = ''$ref'')"
| "schemaOk _ = False"

text \<open>
  Values built from literals only: every object has distinct keys, at every depth.
\<close>

fun literal :: "jsval \<Rightarrow> bool" where
  "literal (JArr xs) = (\<forall>x \<in> set xs. literal x)"
| "literal (JObj kvs) = (distinct (map fst kvs) \<and> (\<forall>kv \<in> set kvs. literal (snd kv)))"
| "literal JExotic = False"
| "literal _ = True"

text \<open>The number a string of decimal digits denotes.\<close>

definition decimalValue :: "string \<Rightarrow> nat" where
  "decimalValue ds = foldl (\<lambda>a c. 10 * a + ((of_char c :: nat) - 48)) 0 ds"

text \<open>
  A handler value coerced to a string: a string is itself, \<^verbatim>\<open>undefined\<close>,
  \<^verbatim>\<open>null\<close> and the booleans are their names, and an integer is its decimal
  numeral, without leading zeros and with a minus sign when negative.
\<close>

fun coercesTo :: "hvalue \<Rightarrow> string \<Rightarrow> bool" where
  "coercesTo (HStr t) s = (s = t)"
| "coercesTo HUndefined s = (s = ''undefined'')"
| "coercesTo HNull s = (s = ''null'')"
| "coercesTo (HBool b) s = (s = (if b then ''true'' else ''false''))"
| "coercesTo (HInt w) s =
     (\<exists>ds. s = (if sint w < 0 then CHR ''-'' # ds else ds)
        \<and> ds \<noteq> [] \<and> list_all isDigit ds
        \<and> (ds = ''0'' \<or> hd ds \<noteq> CHR ''0'')
        \<and> int (decimalValue ds) = \<bar>sint w\<bar>)"

text \<open>The value found by following a chain of keys from an object.\<close>

fun valueAt :: "jsval \<Rightarrow> string list \<Rightarrow> jsval option" where
  "valueAt v [] = Some v"
| "valueAt v (k # ks) = (case getProp v k of None \<Rightarrow> None | Some x \<Rightarrow> valueAt x ks)"




section \<open>Example inputs\<close>

definition numberType :: typecls where
  "numberType = \<lparr>t_name = ''Number'', t_prototypeIsNumber = True\<rparr>"

definition listQueryType :: typecls where
  "listQueryType = \<lparr>t_name = ''ListQuery'', t_prototypeIsNumber = False\<rparr>"

definition usersControllerType :: typecls where
  "usersControllerType = \<lparr>t_name = ''UsersController'', t_prototypeIsNumber = False\<rparr>"

definition userType :: typecls where
  "userType = \<lparr>t_name = ''User'', t_prototypeIsNumber = False\<rparr>"

text \<open>A store that knows the parameter types of two methods, and the empty store.\<close>

definition exMetadata :: metadata where
  "exMetadata = (\<lambda>target property.
     if target = 1 \<and> property = ''getUser''
     then Some [numberType, listQueryType, numberType]
     else if target = 1 \<and> property = ''updateUser'' then Some [userType]
     else None)"

definition noMetadata :: metadata where
  "noMetadata = (\<lambda>target property. None)"

definition idParam :: param where
  "idParam = \<lparr>p_index = 0, p_name = Some ''id'', p_type = ''param'', p_required = None,
              p_object = 1, p_method = ''getUser''\<rparr>"

definition filterParam :: param where
  "filterParam = \<lparr>p_index = 1, p_name = None, p_type = ''queries'', p_required = None,
                  p_object = 1, p_method = ''getUser''\<rparr>"

definition limitParam :: param where
  "limitParam = \<lparr>p_index = 2, p_name = Some ''limit'', p_type = ''query'',
                 p_required = Some True, p_object = 1, p_method = ''getUser''\<rparr>"

text \<open>\<^verbatim>\<open>GET /api/users/:id\<close> of a JSON controller; the queries descriptor is declared
  before the query descriptor.\<close>

definition exRoute :: route where
  "exRoute =
     \<lparr>action = \<lparr>a_type = ''get'', a_route = ''/:id'', a_method = ''getUser'',
                 a_target = usersControllerType\<rparr>,
      controller = \<lparr>c_type = ''json'', c_route = ''/users'', c_target = usersControllerType\<rparr>,
      options = \<lparr>o_routePrefix = Some ''/api'', o_defaults = None\<rparr>,
      params = [idParam, filterParam, limitParam],
      responseHandlers = []\<rparr>"

text \<open>The same route under the global default \<^verbatim>\<open>required: true\<close>.\<close>

definition exRouteGlobal :: route where
  "exRouteGlobal =
     exRoute\<lparr>options := \<lparr>o_routePrefix = Some ''/api'',
                           o_defaults = Some \<lparr>d_paramOptions = Some \<lparr>po_required = Some True\<rparr>\<rparr>\<rparr>\<rparr>"

text \<open>A route without declared parameters, and variants of it.\<close>

definition listRoute :: route where
  "listRoute =
     \<lparr>action = \<lparr>a_type = ''get'', a_route = [], a_method = ''listUsers'',
                 a_target = usersControllerType\<rparr>,
      controller = \<lparr>c_type = ''json'', c_route = ''/users'', c_target = usersControllerType\<rparr>,
      options = \<lparr>o_routePrefix = None, o_defaults = None\<rparr>,
      params = [],
      responseHandlers = []\<rparr>"

definition createRoute :: route where
  "createRoute =
     listRoute\<lparr>action := \<lparr>a_type = ''post'', a_route = [], a_method = ''createUser'',
                           a_target = usersControllerType\<rparr>\<rparr>"

definition itemRoute :: route where
  "itemRoute =
     listRoute\<lparr>action := \<lparr>a_type = ''get'', a_route = ''/:id'', a_method = ''getUser'',
                           a_target = usersControllerType\<rparr>\<rparr>"

definition relistRoute :: route where
  "relistRoute =
     listRoute\<lparr>action := \<lparr>a_type = ''get'', a_route = [], a_method = ''listAgain'',
                           a_target = usersControllerType\<rparr>,
               responseHandlers := [\<lparr>h_type = ''success-code'', h_value = HInt 201\<rparr>]\<rparr>"

text \<open>Two routes for \<^verbatim>\<open>PUT /users\<close>; only the first declares a body.\<close>

definition bodyParam :: param where
  "bodyParam = \<lparr>p_index = 0, p_name = None, p_type = ''body'', p_required = None,
                p_object = 1, p_method = ''updateUser''\<rparr>"

definition updateRoute :: route where
  "updateRoute =
     listRoute\<lparr>action := \<lparr>a_type = ''put'', a_route = [], a_method = ''updateUser'',
                           a_target = usersControllerType\<rparr>,
               params := [bodyParam]\<rparr>"

definition replaceRoute :: route where
  "replaceRoute =
     listRoute\<lparr>action := \<lparr>a_type = ''put'', a_route = [], a_method = ''replaceUser'',
                           a_target = usersControllerType\<rparr>,
               responseHandlers := [\<lparr>h_type = ''success-code'', h_value = HInt 201\<rparr>]\<rparr>"

text \<open>A route whose controller segment holds a literal placeholder.\<close>

definition braceRoute :: route where
  "braceRoute =
     listRoute\<lparr>controller := \<lparr>c_type = ''json'', c_route = ''/{a}'',
                               c_target = usersControllerType\<rparr>,
               action := \<lparr>a_type = ''get'', a_route = ''/:b'', a_method = ''getUser'',
                          a_target = usersControllerType\<rparr>\<rparr>"

text \<open>
  Options that hold defaults without parameter options, parameter options without
  the flag, and the flag set to false.
\<close>

definition exRouteNoParamOptions :: route where
  "exRouteNoParamOptions =
     exRoute\<lparr>options := \<lparr>o_routePrefix = Some ''/api'',
                           o_defaults = Some \<lparr>d_paramOptions = None\<rparr>\<rparr>\<rparr>"

definition exRouteFlagUnset :: route where
  "exRouteFlagUnset =
     exRoute\<lparr>options := \<lparr>o_routePrefix = Some ''/api'',
                           o_defaults = Some \<lparr>d_paramOptions = Some \<lparr>po_required = None\<rparr>\<rparr>\<rparr>\<rparr>"

definition exRouteFlagFalse :: route where
  "exRouteFlagFalse =
     exRoute\<lparr>options := \<lparr>o_routePrefix = Some ''/api'',
                           o_defaults = Some \<lparr>d_paramOptions = Some \<lparr>po_required = Some False\<rparr>\<rparr>\<rparr>\<rparr>"

text \<open>
  A route of a controller that is not of type \<^verbatim>\<open>json\<close>, and one with two handlers
  of each kind, the first content type and the first status given as strings.
\<close>

definition htmlRoute :: route where
  "htmlRoute =
     listRoute\<lparr>controller := \<lparr>c_type = ''default'', c_route = ''/users'',
                               c_target = usersControllerType\<rparr>\<rparr>"

definition csvRoute :: route where
  "csvRoute =
     listRoute\<lparr>responseHandlers :=
       [\<lparr>h_type = ''content-type'', h_value = HStr ''text/csv''\<rparr>,
        \<lparr>h_type = ''success-code'', h_value = HStr ''202''\<rparr>,
        \<lparr>h_type = ''content-type'', h_value = HStr ''text/plain''\<rparr>,
        \<lparr>h_type = ''success-code'', h_value = HInt 204\<rparr>]\<rparr>"

text \<open>The example route without its declared parameters.\<close>

definition exRouteBare :: route where
  "exRouteBare = exRoute\<lparr>params := []\<rparr>"

section \<open>Required-resolution: the rule\<close>

lemma truthy_iff: "truthy b \<longleftrightarrow> b = Some True"
  by (cases b rule: truthy.cases) simp_all

text \<open>
  C3. A parameter is required if and only if: when the options hold defaults whose
  parameter options set \<^verbatim>\<open>required\<close> to true, its own flag is not explicitly
  false; otherwise (no defaults, no parameter options, or a flag there that is
  unset or false), its own flag is explicitly true. So under the global flag a
  parameter without a flag is required, without the global flag it is not, and an
  explicit false is never required.
\<close>

theorem isRequired_resolution:
  "(isRequired required r \<longleftrightarrow>
      (if \<exists>d po. o_defaults (options r) = Some d \<and> d_paramOptions d = Some po
                  \<and> po_required po = Some True
       then required \<noteq> Some False else required = Some True))
   \<and> ((\<exists>d po. o_defaults (options r) = Some d \<and> d_paramOptions d = Some po
                \<and> po_required po = Some True) \<longrightarrow> isRequired None r)
   \<and> (\<not> (\<exists>d po. o_defaults (options r) = Some d \<and> d_paramOptions d = Some po
                \<and> po_required po = Some True) \<longrightarrow> \<not> isRequired None r)
   \<and> \<not> isRequired (Some False) r"
  by (auto simp: isRequired_def truthy_iff globalRequired_def split: option.splits)

theorem isRequired_resolution_witness:
  "isRequired None exRouteGlobal
   \<and> isRequired (Some True) exRouteGlobal
   \<and> \<not> isRequired (Some False) exRouteGlobal
   \<and> \<not> isRequired None exRoute
   \<and> isRequired (Some True) exRoute
   \<and> \<not> isRequired None exRouteNoParamOptions
   \<and> \<not> isRequired None exRouteFlagUnset
   \<and> \<not> isRequired None exRouteFlagFalse
   \<and> isRequired (Some True) exRouteFlagFalse"
  using isRequired_resolution [of None exRouteGlobal]
    isRequired_resolution [of "Some True" exRouteGlobal]
    isRequired_resolution [of "Some False" exRouteGlobal]
    isRequired_resolution [of None exRoute]
    isRequired_resolution [of "Some True" exRoute]
    isRequired_resolution [of None exRouteNoParamOptions]
    isRequired_resolution [of None exRouteFlagUnset]
    isRequired_resolution [of None exRouteFlagFalse]
    isRequired_resolution [of "Some True" exRouteFlagFalse]
  by (simp add: exRouteGlobal_def exRoute_def exRouteNoParamOptions_def exRouteFlagUnset_def
      exRouteFlagFalse_def)

section \<open>Responses: the single entry\<close>

lemma char_of_48: "char_of (48 :: nat) = CHR ''0''"
  by code_simp

lemma of_char_digit: "d < 10 \<Longrightarrow> (of_char (digit d) :: nat) = 48 + d"
  by (simp add: digit_def)

lemma isDigit_digit: "d < 10 \<Longrightarrow> isDigit (digit d)"
  by (simp add: isDigit_def of_char_digit)

lemma digit_zero_iff: "d < 10 \<Longrightarrow> digit d = CHR ''0'' \<longleftrightarrow> d = 0"
proof
  assume d: "d < 10" and z: "digit d = CHR ''0''"
  from z have "(of_char (digit d) :: nat) = of_char CHR ''0''" by simp
  with d show "d = 0" by (simp add: of_char_digit)
next
  assume "d = 0"
  then show "digit d = CHR ''0''" by (simp add: digit_def char_of_48)
qed

lemma decimalValue_snoc:
  "decimalValue (ds @ [c]) = 10 * decimalValue ds + ((of_char c :: nat) - 48)"
  by (simp add: decimalValue_def)

lemma show_nat_nonempty: "show_nat n \<noteq> []"
  by (subst show_nat.simps) simp

lemma show_nat_digits: "list_all isDigit (show_nat n)"
proof (induction n rule: show_nat.induct)
  case (1 n)
  show ?case
  proof (cases "n < 10")
    case True
    then show ?thesis by (subst show_nat.simps) (simp add: isDigit_digit)
  next
    case False
    with 1 show ?thesis by (subst show_nat.simps) (simp add: isDigit_digit)
  qed
qed

lemma show_nat_value: "decimalValue (show_nat n) = n"
proof (induction n rule: show_nat.induct)
  case (1 n)
  show ?case
  proof (cases "n < 10")
    case True
    then show ?thesis
      by (subst show_nat.simps) (simp add: decimalValue_def of_char_digit)
  next
    case False
    with 1 have "decimalValue (show_nat (n div 10)) = n div 10" by simp
    with False show ?thesis
      by (subst show_nat.simps) (simp add: decimalValue_snoc of_char_digit)
  qed
qed

lemma show_nat_leading: "0 < n \<Longrightarrow> hd (show_nat n) \<noteq> CHR ''0''"
proof (induction n rule: show_nat.induct)
  case (1 n)
  show ?case
  proof (cases "n < 10")
    case True
    with 1(2) show ?thesis
      by (subst show_nat.simps) (simp add: digit_zero_iff)
  next
    case False
    then have "0 < n div 10" by simp
    with 1(1) False have "hd (show_nat (n div 10)) \<noteq> CHR ''0''" by simp
    with False show ?thesis
      by (subst show_nat.simps) (simp add: show_nat_nonempty)
  qed
qed

lemma show_nat_zero: "show_nat 0 = ''0''"
  by (subst show_nat.simps) (simp add: digit_def char_of_48)

lemma coercesTo_show_nat:
  "show_nat n \<noteq> [] \<and> list_all isDigit (show_nat n)
   \<and> (show_nat n = ''0'' \<or> hd (show_nat n) \<noteq> CHR ''0'')
   \<and> decimalValue (show_nat n) = n"
proof (cases "n = 0")
  case True
  then have "show_nat n = ''0''"
    by (simp add: show_nat_zero)
  then show ?thesis
    using show_nat_nonempty [of n] show_nat_digits [of n] show_nat_value [of n] by blast
next
  case False
  then have "hd (show_nat n) \<noteq> CHR ''0''"
    by (simp add: show_nat_leading)
  then show ?thesis
    by (simp add: show_nat_nonempty show_nat_digits show_nat_value)
qed

lemma coercesTo_toString: "coercesTo v (toString v)"
proof (cases v)
  case (HInt w)
  show ?thesis
  proof (cases "sint w < 0")
    case True
    with HInt coercesTo_show_nat [of "nat (- sint w)"] show ?thesis
      by (auto intro!: exI [of _ "show_nat (nat (- sint w))"])
  next
    case False
    with HInt coercesTo_show_nat [of "nat (sint w)"] show ?thesis
      by (auto intro!: exI [of _ "show_nat (nat (sint w))"])
  qed
qed simp_all

text \<open>
  C5. The responses object has exactly one entry. Its key is the value of the first
  success-code handler coerced to a string, \<^verbatim>\<open>200\<close> without one. Its content has
  one key, the value of the first content-type handler coerced to a string, and
  without one \<^verbatim>\<open>application/json\<close> for a controller of type \<^verbatim>\<open>json\<close> and
  \<^verbatim>\<open>text/html; charset=utf-8\<close> otherwise; the body under that key is empty, and the
  description is \<^verbatim>\<open>Successful response\<close>.
\<close>

theorem getResponses_single_entry:
  "\<exists>status contentType.
      getResponses r =
        JObj [(status, JObj [(''content'', JObj [(contentType, JObj [])]),
                             (''description'', JStr ''Successful response'')])]
    \<and> (case find (\<lambda>h. h_type h = ''success-code'') (responseHandlers r) of
         None \<Rightarrow> status = ''200''
       | Some m \<Rightarrow> coercesTo (h_value m) status)
    \<and> (case find (\<lambda>h. h_type h = ''content-type'') (responseHandlers r) of
         None \<Rightarrow> contentType = (if c_type (controller r) = ''json'' then ''application/json''
                                else ''text/html; charset=utf-8'')
       | Some m \<Rightarrow> coercesTo (h_value m) contentType)"
  by (simp add: getResponses_def Let_def coercesTo_toString split: option.splits)

theorem getResponses_single_entry_witness:
  "getResponses exRoute =
     JObj [(''200'', JObj [(''content'', JObj [(''application/json'', JObj [])]),
                           (''description'', JStr ''Successful response'')])]
   \<and> getResponses htmlRoute =
     JObj [(''200'', JObj [(''content'', JObj [(''text/html; charset=utf-8'', JObj [])]),
                           (''description'', JStr ''Successful response'')])]
   \<and> getResponses csvRoute =
     JObj [(''202'', JObj [(''content'', JObj [(''text/csv'', JObj [])]),
                           (''description'', JStr ''Successful response'')])]
   \<and> ownKeys (getResponses relistRoute) = [''201'']"
proof -
  have ex: "find (\<lambda>h. h_type h = ''success-code'') (responseHandlers exRoute) = None"
    "find (\<lambda>h. h_type h = ''content-type'') (responseHandlers exRoute) = None"
    "c_type (controller exRoute) = ''json''"
    by code_simp+
  have html: "find (\<lambda>h. h_type h = ''success-code'') (responseHandlers htmlRoute) = None"
    "find (\<lambda>h. h_type h = ''content-type'') (responseHandlers htmlRoute) = None"
    "c_type (controller htmlRoute) \<noteq> ''json''"
    by code_simp+
  have csv: "find (\<lambda>h. h_type h = ''success-code'') (responseHandlers csvRoute)
      = Some \<lparr>h_type = ''success-code'', h_value = HStr ''202''\<rparr>"
    "find (\<lambda>h. h_type h = ''content-type'') (responseHandlers csvRoute)
      = Some \<lparr>h_type = ''content-type'', h_value = HStr ''text/csv''\<rparr>"
    by code_simp+
  have relist: "ownKeys (getResponses relistRoute) = [''201'']"
    by code_simp
  from getResponses_single_entry [of exRoute] have a: "getResponses exRoute =
     JObj [(''200'', JObj [(''content'', JObj [(''application/json'', JObj [])]),
                           (''description'', JStr ''Successful response'')])]"
    unfolding ex by simp
  from getResponses_single_entry [of htmlRoute] html(3) have b: "getResponses htmlRoute =
     JObj [(''200'', JObj [(''content'', JObj [(''text/html; charset=utf-8'', JObj [])]),
                           (''description'', JStr ''Successful response'')])]"
    unfolding html(1,2) by simp
  from getResponses_single_entry [of csvRoute] have c: "getResponses csvRoute =
     JObj [(''202'', JObj [(''content'', JObj [(''text/csv'', JObj [])]),
                           (''description'', JStr ''Successful response'')])]"
    unfolding csv by simp
  from a b c relist show ?thesis by blast
qed

section \<open>Summary: the casing of the phrase\<close>

lemma toUpper_toLower: "toUpper (toLower c) = toUpper c"
proof (cases "isUpper c")
  case True
  then have "(of_char c :: nat) + 32 < 256"
    by (simp add: isUpper_def)
  then have "(of_char (char_of ((of_char c :: nat) + 32)) :: nat) = of_char c + 32"
    by simp
  moreover have "char_of (of_char c :: nat) = c"
    by simp
  ultimately show ?thesis
    using True by (simp add: toUpper_def toLower_def isUpper_def isLower_def)
next
  case False
  then show ?thesis by (simp add: toLower_def)
qed

lemma toLower_not_upper: "\<not> isUpper (toLower c)"
proof (cases "isUpper c")
  case True
  then have "(of_char c :: nat) + 32 < 256"
    by (simp add: isUpper_def)
  then have "(of_char (char_of ((of_char c :: nat) + 32)) :: nat) = of_char c + 32"
    by simp
  then show ?thesis
    using True by (simp add: toLower_def isUpper_def)
next
  case False
  then show ?thesis by (simp add: toLower_def)
qed

text \<open>
  C8, as the code has it. The summary is the start-case form of the method name
  with its first letter in upper case and every other letter in lower case: the
  casing that the start-case conversion gave the rest of the phrase is not kept, so
  \<^verbatim>\<open>getUser\<close>, whose start case is \<^verbatim>\<open>Get User\<close>, yields \<^verbatim>\<open>Get user\<close>.
\<close>

theorem getSummary_capitalizes:
  "getSummary r =
     (case startCase (a_method (action r)) of [] \<Rightarrow> [] | c # cs \<Rightarrow> toUpper c # map toLower cs)
   \<and> (\<forall>c \<in> set (tl (getSummary r)). \<not> isUpper c)"
proof -
  have eq: "getSummary r =
     (case startCase (a_method (action r)) of [] \<Rightarrow> [] | c # cs \<Rightarrow> toUpper c # map toLower cs)"
    by (cases "startCase (a_method (action r))")
       (simp_all add: getSummary_def capitalize_def toUpper_toLower)
  have "\<forall>c \<in> set (tl (getSummary r)). \<not> isUpper c"
    unfolding eq
    by (cases "startCase (a_method (action r))") (auto simp: toLower_not_upper)
  with eq show ?thesis by simp
qed

theorem getSummary_capitalizes_witness:
  "getSummary exRoute = ''Get user'' \<and> list_all (\<lambda>c. \<not> isUpper c) (tl (getSummary exRoute))"
proof -
  have s: "startCase ''getUser'' = ''Get User''"
    by code_simp
  have m: "a_method (action exRoute) = ''getUser''"
    by (simp add: exRoute_def)
  have t: "toUpper CHR ''G'' # map toLower ''et User'' = ''Get user''"
    by code_simp
  from getSummary_capitalizes [of exRoute]
  have "getSummary exRoute = toUpper CHR ''G'' # map toLower ''et User''"
    and "\<forall>c \<in> set (tl (getSummary exRoute)). \<not> isUpper c"
    unfolding s m by simp_all
  then show ?thesis
    unfolding t by (simp add: list_all_iff)
qed

text \<open>
  That only the first letter changes and the rest of the start-case phrase keeps
  its casing fails for \<^verbatim>\<open>getUser\<close>.
\<close>

theorem getSummary_preserves_casing_counterexample:
  "startCase (a_method (action exRoute)) = ''Get User''
   \<and> getSummary exRoute = ''Get user''
   \<and> getSummary exRoute \<noteq> upperFirst (startCase (a_method (action exRoute)))"
  by code_simp

section \<open>Full path: tokens and placeholders\<close>

lemma not_ident_brace: "\<not> isIdent CHR ''}''" "\<not> isIdent CHR ''{''" "\<not> isIdent CHR '':''"
  by (simp_all add: isIdent_def isUpper_def isLower_def isDigit_def)

lemma takeWhile_ident_run:
  "takeWhile isIdent (takeWhile isIdent cs @ CHR ''}'' # rest) = takeWhile isIdent cs"
proof -
  have "\<forall>x \<in> set (takeWhile isIdent cs). isIdent x"
    by (auto dest: set_takeWhileD)
  then show ?thesis
    by (simp add: not_ident_brace)
qed

lemma dropWhile_ident_run:
  "dropWhile isIdent (takeWhile isIdent cs @ CHR ''}'' # rest) = CHR ''}'' # rest"
proof -
  have "\<forall>x \<in> set (takeWhile isIdent cs). isIdent x"
    by (auto dest: set_takeWhileD)
  then show ?thesis
    by (simp add: not_ident_brace)
qed

text \<open>The source's match-and-slice extracts the placeholder names.\<close>

lemma brace_follows:
  "(case xs of [] \<Rightarrow> False | d # ds \<Rightarrow> d = CHR ''}'') \<longleftrightarrow> take 1 xs = ''}''"
  by (cases xs) auto

lemma slice1_braces: "slice1 (CHR ''{'' # name @ ''}'') = name"
  by (simp add: slice1_def butlast_append)

lemma slice_matchPlaceholders: "map slice1 (matchPlaceholders s) = placeholders s"
proof (induction s rule: matchPlaceholders.induct)
  case 1
  show ?case by simp
next
  case (2 c cs)
  show ?case
  proof (cases "c = CHR ''{'' \<and> takeWhile isIdent cs \<noteq> []
      \<and> (case dropWhile isIdent cs of [] \<Rightarrow> False | d # ds \<Rightarrow> d = CHR ''}'')")
    case True
    then have t: "take 1 (dropWhile isIdent cs) = ''}''"
      by (simp only: brace_follows)
    have "map slice1 (matchPlaceholders (tl (dropWhile isIdent cs)))
        = placeholders (tl (dropWhile isIdent cs))"
      using 2(1) True by simp
    then show ?thesis
      using True t by (simp add: slice1_braces drop_Suc)
  next
    case False
    then have f: "\<not> (c = CHR ''{'' \<and> takeWhile isIdent cs \<noteq> []
        \<and> take 1 (dropWhile isIdent cs) = ''}'')"
      by (simp only: brace_follows) simp
    have "map slice1 (matchPlaceholders cs) = placeholders cs"
      using 2(2) False by simp
    then show ?thesis
      using False f by auto
  qed
qed

lemma replaceParams_ident_prefix:
  "\<forall>x \<in> set xs. isIdent x \<Longrightarrow> replaceParams (xs @ ys) = xs @ replaceParams ys"
proof (induction xs)
  case Nil
  show ?case by simp
next
  case (Cons x xs)
  then have "x \<noteq> CHR '':''" using not_ident_brace(3) by auto
  with Cons show ?case by simp
qed

lemma replaceParams_split:
  "replaceParams cs = takeWhile isIdent cs @ replaceParams (dropWhile isIdent cs)"
proof -
  have "\<forall>x \<in> set (takeWhile isIdent cs). isIdent x"
    by (auto dest: set_takeWhileD)
  from replaceParams_ident_prefix [OF this, of "dropWhile isIdent cs"]
  show ?thesis by simp
qed

lemma replaceParams_head:
  "\<not> isIdent d \<Longrightarrow> \<exists>e rest. replaceParams (d # ds) = e # rest \<and> \<not> isIdent e \<and> (e = CHR ''}'' \<longleftrightarrow> d = CHR ''}'')"
  by (auto simp: not_ident_brace)

lemma takeWhile_replaceParams:
  "takeWhile isIdent (replaceParams cs) = takeWhile isIdent cs"
proof (cases "dropWhile isIdent cs")
  case Nil
  then show ?thesis
    using replaceParams_split [of cs] by (metis replaceParams.simps(1) append_Nil2 takeWhile_idem)
next
  case (Cons d ds)
  then have "\<not> isIdent d" by (metis hd_dropWhile list.sel(1) list.distinct(1))
  from replaceParams_head [OF this, of ds] obtain e rest where
    e: "replaceParams (d # ds) = e # rest" "\<not> isIdent e" by blast
  have a: "\<forall>x \<in> set (takeWhile isIdent cs). isIdent x"
    by (auto dest: set_takeWhileD)
  have "replaceParams cs = takeWhile isIdent cs @ e # rest"
    using replaceParams_split [of cs] Cons e by simp
  then show ?thesis using a e(2) by simp
qed

lemma dropWhile_replaceParams:
  "take (Suc 0) (dropWhile isIdent (replaceParams cs)) = ''}''
     \<longleftrightarrow> take (Suc 0) (dropWhile isIdent cs) = ''}''"
proof (cases "dropWhile isIdent cs")
  case Nil
  have "replaceParams cs = takeWhile isIdent cs"
    using replaceParams_split [of cs] Nil by simp
  then have r: "dropWhile isIdent (replaceParams cs) = []"
    by (auto dest: set_takeWhileD)
  show ?thesis unfolding r Nil by simp
next
  case (Cons d ds)
  then have "\<not> isIdent d" by (metis hd_dropWhile list.sel(1) list.distinct(1))
  from replaceParams_head [OF this, of ds] obtain e rest where
    e: "replaceParams (d # ds) = e # rest" "\<not> isIdent e" "e = CHR ''}'' \<longleftrightarrow> d = CHR ''}''" by blast
  have a: "\<forall>x \<in> set (takeWhile isIdent cs). isIdent x"
    by (auto dest: set_takeWhileD)
  have "replaceParams cs = takeWhile isIdent cs @ e # rest"
    using replaceParams_split [of cs] Cons e by simp
  then have "dropWhile isIdent (replaceParams cs) = e # rest"
    using a e(2) by simp
  with Cons e(3) show ?thesis by simp
qed

lemma placeholders_replaceParams_all:
  "placeholders (replaceParams s) = namedSegments s"
proof (induction s rule: namedSegments.induct)
  case 1
  show ?case by simp
next
  case (2 c cs)
  show ?case
  proof (cases "c = CHR '':'' \<and> takeWhile isIdent cs \<noteq> []")
    case True
    with 2(1) have "placeholders (replaceParams (dropWhile isIdent cs))
        = namedSegments (dropWhile isIdent cs)"
      by simp
    with True show ?thesis
      by (simp add: takeWhile_ident_run dropWhile_ident_run)
  next
    case notok: False
    then have rp: "replaceParams (c # cs) = c # replaceParams cs" by auto
    show ?thesis
    proof (cases "c = CHR ''{'' \<and> takeWhile isIdent cs \<noteq> [] \<and> take 1 (dropWhile isIdent cs) = ''}''")
      case True
      then obtain rest where dw: "dropWhile isIdent cs = CHR ''}'' # rest"
        by (cases "dropWhile isIdent cs") auto
      have ih: "placeholders (replaceParams rest) = namedSegments rest"
        using 2(2) notok True dw by simp
      have "replaceParams cs = takeWhile isIdent cs @ replaceParams (CHR ''}'' # rest)"
        using replaceParams_split [of cs] dw by simp
      then have "replaceParams cs = takeWhile isIdent cs @ CHR ''}'' # replaceParams rest"
        by simp
      then have "placeholders (CHR ''{'' # replaceParams cs) = takeWhile isIdent cs # placeholders (replaceParams rest)"
        using True by (simp add: takeWhile_ident_run dropWhile_ident_run)
      with ih True notok dw rp show ?thesis by simp
    next
      case False
      have ih: "placeholders (replaceParams cs) = namedSegments cs"
        using 2(3) notok False by simp
      have "placeholders (c # replaceParams cs) = placeholders (replaceParams cs)"
        using False by (auto simp: takeWhile_replaceParams dropWhile_replaceParams)
      with ih rp notok False show ?thesis by auto
    qed
  qed
qed

lemma namedSegments_no_brace:
  "CHR ''{'' \<notin> set s \<Longrightarrow> namedSegments s = colonTokens s"
  by (induction s rule: colonTokens.induct) (auto dest: set_dropWhileD)

text \<open>
  C1, as the code has it. The full path is the concatenation of prefix, controller
  route and action route with every \<^verbatim>\<open>:name\<close> token rewritten to \<^verbatim>\<open>{name}\<close>.
  Its placeholders are, in order, the names of the \<^verbatim>\<open>:name\<close> tokens of the
  concatenation and of the \<^verbatim>\<open>{name}\<close> placeholders the concatenation already
  holds; so when the concatenation holds no opening brace of its own, they are
  exactly the names of its tokens, one per token and in the same order.
\<close>

theorem getFullPath_placeholders:
  "getFullPath r = replaceParams (routeConcat r)
   \<and> placeholders (getFullPath r) = namedSegments (routeConcat r)
   \<and> (CHR ''{'' \<notin> set (routeConcat r) \<longrightarrow>
        placeholders (getFullPath r) = colonTokens (routeConcat r))"
proof -
  have "getFullPath r = replaceParams (routeConcat r)"
    by (cases "o_routePrefix (options r)") (simp_all add: getFullPath_def routeConcat_def)
  then show ?thesis
    by (simp add: placeholders_replaceParams_all namedSegments_no_brace)
qed

theorem getFullPath_placeholders_witness:
  "CHR ''{'' \<notin> set (routeConcat exRoute)
   \<and> getFullPath exRoute = ''/api/users/{id}''
   \<and> placeholders (getFullPath exRoute) = [''id'']"
proof -
  have c: "routeConcat exRoute = ''/api/users/:id''"
    by (simp add: routeConcat_def exRoute_def)
  have h: "CHR ''{'' \<notin> set (routeConcat exRoute)"
    unfolding c by simp
  have t: "colonTokens ''/api/users/:id'' = [''id'']"
    by code_simp
  have p: "replaceParams ''/api/users/:id'' = ''/api/users/{id}''"
    by code_simp
  from getFullPath_placeholders [of exRoute] h
  have "getFullPath exRoute = replaceParams (routeConcat exRoute)"
    and "placeholders (getFullPath exRoute) = colonTokens (routeConcat exRoute)"
    by blast+
  then have "getFullPath exRoute = ''/api/users/{id}''"
    and "placeholders (getFullPath exRoute) = [''id'']"
    by (simp_all only: c t p)
  with h show ?thesis by blast
qed

text \<open>
  That the result holds no placeholder besides those of the tokens fails for a
  route whose segments hold a literal placeholder: \<^verbatim>\<open>/{a}\<close> followed by
  \<^verbatim>\<open>/:b\<close> has one token, and its full path two placeholders.
\<close>

theorem getFullPath_literal_brace_counterexample:
  "routeConcat braceRoute = ''/{a}/:b''
   \<and> getFullPath braceRoute = ''/{a}/{b}''
   \<and> colonTokens (routeConcat braceRoute) = [''b'']
   \<and> map slice1 (matchPlaceholders (getFullPath braceRoute)) = [''a'', ''b'']
   \<and> placeholders (getFullPath braceRoute) \<noteq> colonTokens (routeConcat braceRoute)"
  by code_simp

section \<open>Type recovery and throwing maps\<close>

lemma recoverType_declared:
  "recoverType md meta = (case declaredType md meta of None \<Rightarrow> Inl TypeError | Some t \<Rightarrow> Inr t)"
  by (simp add: recoverType_def paramTypeAt_def getParamTypes_def declaredType_def
      split: option.splits)

lemma mapE_Inr: "(\<And>x. x \<in> set xs \<Longrightarrow> f x = Inr (g x)) \<Longrightarrow> mapE f xs = Inr (map g xs)"
  by (induction xs) simp_all

lemma mapE_Inl: "x \<in> set xs \<Longrightarrow> f x = Inl e \<Longrightarrow> mapE f xs = Inl TypeError"
proof (induction xs)
  case Nil
  then show ?case by simp
next
  case (Cons y ys)
  show ?case
  proof (cases "f y")
    case (Inl e')
    then show ?thesis by (cases e') simp
  next
    case (Inr v)
    with Cons have "x \<in> set ys" by auto
    with Cons have "mapE f ys = Inl TypeError" by simp
    with Inr show ?thesis by simp
  qed
qed

lemma mapE_returns_iff:
  "(\<exists>ys. mapE f xs = Inr ys) \<longleftrightarrow> (\<forall>x \<in> set xs. \<exists>y. f x = Inr y)"
proof
  assume "\<exists>ys. mapE f xs = Inr ys"
  then obtain ys where ys: "mapE f xs = Inr ys" ..
  show "\<forall>x \<in> set xs. \<exists>y. f x = Inr y"
  proof
    fix x
    assume x: "x \<in> set xs"
    show "\<exists>y. f x = Inr y"
    proof (cases "f x")
      case (Inl e)
      with x have "mapE f xs = Inl TypeError" by (rule mapE_Inl)
      with ys show ?thesis by simp
    next
      case (Inr y)
      then show ?thesis by blast
    qed
  qed
next
  assume "\<forall>x \<in> set xs. \<exists>y. f x = Inr y"
  then have "\<And>x. x \<in> set xs \<Longrightarrow> f x = Inr (projr (f x))"
    by auto
  then have "mapE f xs = Inr (map (\<lambda>x. projr (f x)) xs)"
    by (rule mapE_Inr)
  then show "\<exists>ys. mapE f xs = Inr ys" ..
qed

lemma throws_iff: "x = Inl TypeError \<longleftrightarrow> \<not> (\<exists>y. x = Inr y)"
proof (cases x)
  case (Inl e)
  then show ?thesis by (cases e) simp
next
  case (Inr y)
  then show ?thesis by simp
qed

section \<open>Path parameters: one per placeholder\<close>

lemma find_pathMeta:
  "find (\<lambda>p. p_name p = Some name \<and> p_type p = ''param'') (params r) = pathMeta r name"
  unfolding pathMeta_def by (rule find_cong) auto

lemma pathParam_spec:
  assumes "case pathMeta r name of None \<Rightarrow> True | Some meta \<Rightarrow> declaredType md meta \<noteq> None"
  shows "pathParam md r name = Inr (specPathParam md r name)"
proof (cases "pathMeta r name")
  case None
  then show ?thesis
    by (simp add: pathParam_def find_pathMeta specPathParam_def paramObject_def typeSchema_def)
next
  case (Some meta)
  with assms obtain t where "declaredType md meta = Some t" by auto
  with Some show ?thesis
    by (simp add: pathParam_def find_pathMeta specPathParam_def paramObject_def typeSchema_def
        recoverType_declared primitiveType_def)
qed

lemma pathParam_throws:
  assumes "pathMeta r name = Some meta" and "declaredType md meta = None"
  shows "pathParam md r name = Inl TypeError"
  using assms by (simp add: pathParam_def find_pathMeta recoverType_declared)

lemma pathParam_returns_iff:
  "(\<exists>y. pathParam md r name = Inr y)
   \<longleftrightarrow> (case pathMeta r name of None \<Rightarrow> True | Some meta \<Rightarrow> declaredType md meta \<noteq> None)"
proof (cases "pathMeta r name")
  case None
  then show ?thesis using pathParam_spec [where r = r and name = name and md = md] by simp
next
  case (Some meta)
  show ?thesis
  proof (cases "declaredType md meta")
    case None
    with Some show ?thesis using pathParam_throws [where r = r and name = name and md = md and meta = meta] by simp
  next
    case (Some t)
    with \<open>pathMeta r name = Some meta\<close> show ?thesis
      using pathParam_spec [where r = r and name = name and md = md] by simp
  qed
qed

lemma getPathParams_returns_iff:
  "(\<exists>ps. getPathParams md r = Inr ps) \<longleftrightarrow> pathTypesOk md r"
  by (simp add: getPathParams_def slice_matchPlaceholders mapE_returns_iff
      pathParam_returns_iff pathTypesOk_def)

lemma getPathParams_spec:
  assumes "pathTypesOk md r"
  shows "getPathParams md r = Inr (map (specPathParam md r) (placeholders (getFullPath r)))"
proof -
  have "\<And>name. name \<in> set (placeholders (getFullPath r))
      \<Longrightarrow> pathParam md r name = Inr (specPathParam md r name)"
    using assms by (auto simp: pathTypesOk_def intro: pathParam_spec)
  then show ?thesis
    by (simp add: getPathParams_def slice_matchPlaceholders mapE_Inr)
qed

text \<open>
  C2, as the code has it. For a route whose path descriptors matched by a
  placeholder all have a declared type in the reflection store,
  \<^verbatim>\<open>getPathParams\<close> returns one parameter object per placeholder occurrence of
  the full path, in path order and duplicates included. Each has location
  \<^verbatim>\<open>path\<close> and the placeholder's name; it is required and of type \<^verbatim>\<open>string\<close>
  when no path descriptor has that name, and otherwise takes its required flag from
  the resolution rule applied to the first such descriptor, and the type
  \<^verbatim>\<open>number\<close> or \<^verbatim>\<open>string\<close> according to whether that descriptor's declared type
  is number-like. For any other route \<^verbatim>\<open>getPathParams\<close> throws a
  \<^verbatim>\<open>TypeError\<close>.
\<close>

theorem getPathParams_per_placeholder:
  "if pathTypesOk md r
   then \<exists>ps. getPathParams md r = Inr ps
     \<and> length ps = length (placeholders (getFullPath r))
     \<and> (\<forall>i < length ps.
          let name = placeholders (getFullPath r) ! i in
            getProp (ps ! i) ''in'' = Some (JStr ''path'')
          \<and> getProp (ps ! i) ''name'' = Some (JStr name)
          \<and> (case pathMeta r name of
               None \<Rightarrow>
                 getProp (ps ! i) ''required'' = Some (JBool True)
               \<and> getProp (ps ! i) ''schema'' = Some (JObj [(''type'', JStr ''string'')])
             | Some meta \<Rightarrow>
                 getProp (ps ! i) ''required'' = Some (JBool (isRequired (p_required meta) r))
               \<and> (\<exists>t. declaredType md meta = Some t
                    \<and> getProp (ps ! i) ''schema''
                      = Some (JObj [(''type'',
                           JStr (if t_prototypeIsNumber t then ''number'' else ''string''))]))))
   else getPathParams md r = Inl TypeError"
proof (cases "pathTypesOk md r")
  case False
  then have "getPathParams md r = Inl TypeError"
    by (simp only: throws_iff getPathParams_returns_iff) simp
  with False show ?thesis
    by (simp only: if_False)
next
  case ok: True
  let ?names = "placeholders (getFullPath r)"
  let ?ps = "map (specPathParam md r) ?names"
  have ret: "getPathParams md r = Inr ?ps"
    using ok by (rule getPathParams_spec)
  have each: "let name = ?names ! i in
            getProp (?ps ! i) ''in'' = Some (JStr ''path'')
          \<and> getProp (?ps ! i) ''name'' = Some (JStr name)
          \<and> (case pathMeta r name of
               None \<Rightarrow>
                 getProp (?ps ! i) ''required'' = Some (JBool True)
               \<and> getProp (?ps ! i) ''schema'' = Some (JObj [(''type'', JStr ''string'')])
             | Some meta \<Rightarrow>
                 getProp (?ps ! i) ''required'' = Some (JBool (isRequired (p_required meta) r))
               \<and> (\<exists>t. declaredType md meta = Some t
                    \<and> getProp (?ps ! i) ''schema''
                      = Some (JObj [(''type'',
                           JStr (if t_prototypeIsNumber t then ''number'' else ''string''))])))"
    if i: "i < length ?ps" for i
  proof -
    from i have mem: "?names ! i \<in> set ?names" by simp
    show ?thesis
    proof (cases "pathMeta r (?names ! i)")
      case None
      with i show ?thesis by (simp add: specPathParam_def)
    next
      case (Some meta)
      with mem ok obtain t where "declaredType md meta = Some t"
        by (fastforce simp: pathTypesOk_def)
      with Some i show ?thesis by (simp add: specPathParam_def)
    qed
  qed
  have "\<exists>ps. getPathParams md r = Inr ps
     \<and> length ps = length (placeholders (getFullPath r))
     \<and> (\<forall>i < length ps.
          let name = placeholders (getFullPath r) ! i in
            getProp (ps ! i) ''in'' = Some (JStr ''path'')
          \<and> getProp (ps ! i) ''name'' = Some (JStr name)
          \<and> (case pathMeta r name of
               None \<Rightarrow>
                 getProp (ps ! i) ''required'' = Some (JBool True)
               \<and> getProp (ps ! i) ''schema'' = Some (JObj [(''type'', JStr ''string'')])
             | Some meta \<Rightarrow>
                 getProp (ps ! i) ''required'' = Some (JBool (isRequired (p_required meta) r))
               \<and> (\<exists>t. declaredType md meta = Some t
                    \<and> getProp (ps ! i) ''schema''
                      = Some (JObj [(''type'',
                           JStr (if t_prototypeIsNumber t then ''number'' else ''string''))]))))"
    using ret each by (intro exI [of _ ?ps]) simp
  with ok show ?thesis
    by (simp only: if_True)
qed

theorem getPathParams_per_placeholder_witness:
  "pathTypesOk exMetadata exRoute
   \<and> (\<exists>ps. getPathParams exMetadata exRoute = Inr ps \<and> length ps = 1
         \<and> getProp (ps ! 0) ''in'' = Some (JStr ''path'')
         \<and> getProp (ps ! 0) ''name'' = Some (JStr ''id'')
         \<and> getProp (ps ! 0) ''required'' = Some (JBool False)
         \<and> getProp (ps ! 0) ''schema'' = Some (JObj [(''type'', JStr ''number'')]))
   \<and> \<not> pathTypesOk noMetadata exRoute
   \<and> pathTypesOk noMetadata exRouteBare
   \<and> (\<exists>ps. getPathParams noMetadata exRouteBare = Inr ps \<and> length ps = 1
         \<and> getProp (ps ! 0) ''required'' = Some (JBool True)
         \<and> getProp (ps ! 0) ''schema'' = Some (JObj [(''type'', JStr ''string'')]))"
proof -
  have names: "placeholders (getFullPath exRoute) = [''id'']"
    "placeholders (getFullPath exRouteBare) = [''id'']"
    by code_simp+
  have meta: "pathMeta exRoute ''id'' = Some idParam" "pathMeta exRouteBare ''id'' = None"
    by code_simp+
  have ty: "declaredType exMetadata idParam = Some numberType"
    by code_simp
  have req: "isRequired (p_required idParam) exRoute = False"
    by code_simp
  have num: "t_prototypeIsNumber numberType"
    by (simp add: numberType_def)
  have h: "pathTypesOk exMetadata exRoute"
    by (simp add: pathTypesOk_def names meta ty)
  have n: "\<not> pathTypesOk noMetadata exRoute"
    by code_simp
  have b: "pathTypesOk noMetadata exRouteBare"
    by (simp add: pathTypesOk_def names meta)
  from getPathParams_per_placeholder [of exMetadata exRoute] h obtain ps where
    ps: "getPathParams exMetadata exRoute = Inr ps" "length ps = 1"
    and each: "\<forall>i < length ps.
          let name = placeholders (getFullPath exRoute) ! i in
            getProp (ps ! i) ''in'' = Some (JStr ''path'')
          \<and> getProp (ps ! i) ''name'' = Some (JStr name)
          \<and> (case pathMeta exRoute name of
               None \<Rightarrow>
                 getProp (ps ! i) ''required'' = Some (JBool True)
               \<and> getProp (ps ! i) ''schema'' = Some (JObj [(''type'', JStr ''string'')])
             | Some meta \<Rightarrow>
                 getProp (ps ! i) ''required''
                   = Some (JBool (isRequired (p_required meta) exRoute))
               \<and> (\<exists>t. declaredType exMetadata meta = Some t
                    \<and> getProp (ps ! i) ''schema''
                      = Some (JObj [(''type'',
                           JStr (if t_prototypeIsNumber t then ''number'' else ''string''))])))"
    unfolding names by auto
  from each ps(2) have
    "let name = placeholders (getFullPath exRoute) ! 0 in
            getProp (ps ! 0) ''in'' = Some (JStr ''path'')
          \<and> getProp (ps ! 0) ''name'' = Some (JStr name)
          \<and> (case pathMeta exRoute name of
               None \<Rightarrow>
                 getProp (ps ! 0) ''required'' = Some (JBool True)
               \<and> getProp (ps ! 0) ''schema'' = Some (JObj [(''type'', JStr ''string'')])
             | Some meta \<Rightarrow>
                 getProp (ps ! 0) ''required''
                   = Some (JBool (isRequired (p_required meta) exRoute))
               \<and> (\<exists>t. declaredType exMetadata meta = Some t
                    \<and> getProp (ps ! 0) ''schema''
                      = Some (JObj [(''type'',
                           JStr (if t_prototypeIsNumber t then ''number'' else ''string''))])))"
    by simp
  then have first: "getProp (ps ! 0) ''in'' = Some (JStr ''path'')
      \<and> getProp (ps ! 0) ''name'' = Some (JStr ''id'')
      \<and> getProp (ps ! 0) ''required'' = Some (JBool False)
      \<and> getProp (ps ! 0) ''schema'' = Some (JObj [(''type'', JStr ''number'')])"
    by (simp add: names meta ty req num)
  from getPathParams_per_placeholder [of noMetadata exRouteBare] b obtain qs where
    qs: "getPathParams noMetadata exRouteBare = Inr qs" "length qs = 1"
    and qeach: "\<forall>i < length qs.
          let name = placeholders (getFullPath exRouteBare) ! i in
            getProp (qs ! i) ''in'' = Some (JStr ''path'')
          \<and> getProp (qs ! i) ''name'' = Some (JStr name)
          \<and> (case pathMeta exRouteBare name of
               None \<Rightarrow>
                 getProp (qs ! i) ''required'' = Some (JBool True)
               \<and> getProp (qs ! i) ''schema'' = Some (JObj [(''type'', JStr ''string'')])
             | Some meta \<Rightarrow>
                 getProp (qs ! i) ''required''
                   = Some (JBool (isRequired (p_required meta) exRouteBare))
               \<and> (\<exists>t. declaredType noMetadata meta = Some t
                    \<and> getProp (qs ! i) ''schema''
                      = Some (JObj [(''type'',
                           JStr (if t_prototypeIsNumber t then ''number'' else ''string''))])))"
    unfolding names by auto
  from qeach qs(2) have second: "getProp (qs ! 0) ''required'' = Some (JBool True)
      \<and> getProp (qs ! 0) ''schema'' = Some (JObj [(''type'', JStr ''string'')])"
    by (simp add: names meta)
  from h ps first n b qs second show ?thesis by blast
qed

text \<open>
  That every route gets its path parameters fails when the reflection store holds
  no parameter types for the method of a matched path descriptor: the read of the
  type throws.
\<close>

theorem getPathParams_missing_type_counterexample:
  "placeholders (getFullPath exRoute) = [''id'']
   \<and> pathMeta exRoute ''id'' = Some idParam
   \<and> getParamTypes noMetadata (p_object idParam) (p_method idParam) = None
   \<and> getPathParams noMetadata exRoute = Inl TypeError"
  by code_simp

section \<open>Query parameters: the queries entry comes last\<close>

lemma queryParam_spec:
  "declaredType md meta \<noteq> None \<Longrightarrow> queryParam md r meta = Inr (specQueryParam md r meta)"
  by (auto simp: queryParam_def specQueryParam_def paramObject_def typeSchema_def
      recoverType_declared primitiveType_def split: option.splits)

lemma queryParam_returns_iff:
  "(\<exists>y. queryParam md r meta = Inr y) \<longleftrightarrow> declaredType md meta \<noteq> None"
  by (cases "declaredType md meta") (simp_all add: queryParam_def recoverType_declared)

lemma queries_map_spec:
  assumes "\<forall>p \<in> set (params r). p_type p = ''query'' \<longrightarrow> declaredType md p \<noteq> None"
  shows "mapE (queryParam md r) (filter (\<lambda>p. p_type p = ''query'') (params r))
     = Inr (map (specQueryParam md r) (filter (\<lambda>p. p_type p = ''query'') (params r)))"
  using assms by (intro mapE_Inr) (simp add: queryParam_spec)

lemma getQueryParams_spec:
  assumes "queryTypesOk md r"
  shows "getQueryParams md r =
     Inr (map (specQueryParam md r) (filter (\<lambda>p. p_type p = ''query'') (params r))
          @ (case find (\<lambda>p. p_type p = ''queries'') (params r) of
               None \<Rightarrow> []
             | Some queriesMeta \<Rightarrow>
                 (case declaredType md queriesMeta of
                    None \<Rightarrow> []
                  | Some t \<Rightarrow> [specQueriesParam r queriesMeta t])))"
proof -
  have q: "mapE (queryParam md r) (filter (\<lambda>p. p_type p = ''query'') (params r))
     = Inr (map (specQueryParam md r) (filter (\<lambda>p. p_type p = ''query'') (params r)))"
    using assms by (intro queries_map_spec) (simp add: queryTypesOk_def)
  show ?thesis
  proof (cases "find (\<lambda>p. p_type p = ''queries'') (params r)")
    case None
    with q show ?thesis by (simp add: getQueryParams_def)
  next
    case (Some queriesMeta)
    with assms obtain t where "declaredType md queriesMeta = Some t"
      by (auto simp: queryTypesOk_def)
    with q Some show ?thesis
      by (simp add: getQueryParams_def recoverType_declared specQueriesParam_def
          paramObject_def makeRef_def)
  qed
qed

lemma getQueryParams_returns_iff:
  "(\<exists>qs. getQueryParams md r = Inr qs) \<longleftrightarrow> queryTypesOk md r"
proof
  assume "queryTypesOk md r"
  then show "\<exists>qs. getQueryParams md r = Inr qs"
    by (simp add: getQueryParams_spec)
next
  assume "\<exists>qs. getQueryParams md r = Inr qs"
  then obtain qs where qs: "getQueryParams md r = Inr qs" ..
  then obtain queries where
    m: "mapE (queryParam md r) (filter (\<lambda>p. p_type p = ''query'') (params r)) = Inr queries"
    by (auto simp: getQueryParams_def split: sum.splits)
  then have "\<forall>p \<in> set (filter (\<lambda>p. p_type p = ''query'') (params r)).
      \<exists>y. queryParam md r p = Inr y"
    using mapE_returns_iff [of "queryParam md r"] by blast
  then have a: "\<forall>p \<in> set (params r). p_type p = ''query'' \<longrightarrow> declaredType md p \<noteq> None"
    by (simp add: queryParam_returns_iff)
  have b: "case find (\<lambda>p. p_type p = ''queries'') (params r) of
           None \<Rightarrow> True | Some meta \<Rightarrow> declaredType md meta \<noteq> None"
    using qs m
    by (auto simp: getQueryParams_def recoverType_declared split: option.splits sum.splits)
  from a b show "queryTypesOk md r"
    by (simp add: queryTypesOk_def)
qed

text \<open>
  C10, as the code has it. Let the first queries descriptor of a route be
  \<open>queriesMeta\<close>. If the query descriptors of the route and \<open>queriesMeta\<close> all have a
  declared type in the reflection store, \<^verbatim>\<open>getQueryParams\<close> returns the entries
  of the query descriptors, in declaration order, followed by exactly one more
  entry, the last: that of \<open>queriesMeta\<close>, named after its declared type and with a
  \<^verbatim>\<open>$ref\<close> schema. Where \<open>queriesMeta\<close> stands among the descriptors plays no
  role, and no later queries descriptor adds an entry. Otherwise
  \<^verbatim>\<open>getQueryParams\<close> throws a \<^verbatim>\<open>TypeError\<close>.
\<close>

theorem getQueryParams_queries_last:
  assumes "find (\<lambda>p. p_type p = ''queries'') (params r) = Some queriesMeta"
  shows "if queryTypesOk md r
     then \<exists>t. declaredType md queriesMeta = Some t
       \<and> getQueryParams md r =
           Inr (map (specQueryParam md r) (filter (\<lambda>p. p_type p = ''query'') (params r))
                @ [JObj [(''in'', JStr ''query''), (''name'', JStr (t_name t)),
                         (''required'', JBool (isRequired (p_required queriesMeta) r)),
                         (''schema'',
                          JObj [(''$ref'', JStr (''#/components/schemas/'' @ t_name t))])]])
     else getQueryParams md r = Inl TypeError"
proof (cases "queryTypesOk md r")
  case False
  then have "getQueryParams md r = Inl TypeError"
    by (simp only: throws_iff getQueryParams_returns_iff) simp
  with False show ?thesis
    by (simp only: if_False)
next
  case True
  with assms obtain t where t: "declaredType md queriesMeta = Some t"
    by (auto simp: queryTypesOk_def)
  with assms True have "\<exists>t. declaredType md queriesMeta = Some t
       \<and> getQueryParams md r =
           Inr (map (specQueryParam md r) (filter (\<lambda>p. p_type p = ''query'') (params r))
                @ [JObj [(''in'', JStr ''query''), (''name'', JStr (t_name t)),
                         (''required'', JBool (isRequired (p_required queriesMeta) r)),
                         (''schema'',
                          JObj [(''$ref'', JStr (''#/components/schemas/'' @ t_name t))])]])"
    by (simp add: getQueryParams_spec specQueriesParam_def)
  with True show ?thesis
    by (simp only: if_True)
qed

theorem getQueryParams_queries_last_witness:
  "queryTypesOk exMetadata exRoute
   \<and> find (\<lambda>p. p_type p = ''queries'') (params exRoute) = Some filterParam
   \<and> params exRoute = [idParam, filterParam, limitParam]
   \<and> getQueryParams exMetadata exRoute =
       Inr [JObj [(''in'', JStr ''query''), (''name'', JStr ''limit''),
                  (''required'', JBool True), (''schema'', JObj [(''type'', JStr ''number'')])],
            JObj [(''in'', JStr ''query''), (''name'', JStr ''ListQuery''),
                  (''required'', JBool False),
                  (''schema'', JObj [(''$ref'', JStr ''#/components/schemas/ListQuery'')])]]"
proof -
  have h: "queryTypesOk exMetadata exRoute"
    by code_simp
  have f: "find (\<lambda>p. p_type p = ''queries'') (params exRoute) = Some filterParam"
    by code_simp
  have p: "params exRoute = [idParam, filterParam, limitParam]"
    by (simp add: exRoute_def)
  have ty: "declaredType exMetadata filterParam = Some listQueryType"
    by code_simp
  have qs: "map (specQueryParam exMetadata exRoute)
        (filter (\<lambda>p. p_type p = ''query'') (params exRoute))
      = [JObj [(''in'', JStr ''query''), (''name'', JStr ''limit''),
                  (''required'', JBool True), (''schema'', JObj [(''type'', JStr ''number'')])]]"
    by code_simp
  have req: "isRequired (p_required filterParam) exRoute = False"
    by code_simp
  have n: "t_name listQueryType = ''ListQuery''"
    by (simp add: listQueryType_def)
  from getQueryParams_queries_last [OF f, of exMetadata] h ty
  have "getQueryParams exMetadata exRoute =
         Inr (map (specQueryParam exMetadata exRoute)
                (filter (\<lambda>p. p_type p = ''query'') (params exRoute))
              @ [JObj [(''in'', JStr ''query''), (''name'', JStr (t_name listQueryType)),
                       (''required'', JBool (isRequired (p_required filterParam) exRoute)),
                       (''schema'',
                        JObj [(''$ref'',
                          JStr (''#/components/schemas/'' @ t_name listQueryType))])]])"
    by auto
  then have "getQueryParams exMetadata exRoute =
       Inr [JObj [(''in'', JStr ''query''), (''name'', JStr ''limit''),
                  (''required'', JBool True), (''schema'', JObj [(''type'', JStr ''number'')])],
            JObj [(''in'', JStr ''query''), (''name'', JStr ''ListQuery''),
                  (''required'', JBool False),
                  (''schema'', JObj [(''$ref'', JStr ''#/components/schemas/ListQuery'')])]]"
    unfolding qs req n by simp
  with h f p show ?thesis by blast
qed

text \<open>
  That every route with a queries descriptor gets its query parameters fails when
  the reflection store holds no parameter types for the method: the read of the
  type throws.
\<close>

theorem getQueryParams_missing_type_counterexample:
  "find (\<lambda>p. p_type p = ''queries'') (params exRoute) = Some filterParam
   \<and> filter (\<lambda>p. p_type p = ''query'') (params exRoute) = [limitParam]
   \<and> getParamTypes noMetadata (p_object limitParam) (p_method limitParam) = None
   \<and> getQueryParams noMetadata exRoute = Inl TypeError"
  by code_simp

section \<open>Operations: the parameters array\<close>

lemma getRequestBody_returns_iff:
  "(\<exists>b. getRequestBody md r = Inr b) \<longleftrightarrow> bodyTypeOk md r"
  by (auto simp: getRequestBody_def bodyTypeOk_def recoverType_declared split: option.splits)

lemma getOperation_parts:
  assumes "getPathParams md r = Inr pathParams"
    and "getQueryParams md r = Inr queryParams"
    and "getRequestBody md r = Inr requestBody"
  shows "getOperation md r =
     Inr (omitBy
            [(''operationId'', JStr (getOperationId r)),
             (''parameters'', JArr (pathParams @ queryParams)),
             (''requestBody'', requestBody),
             (''responses'', getResponses r),
             (''summary'', JStr (getSummary r)),
             (''tags'', JArr (map JStr (getTags r)))]
            isEmpty)"
  using assms by (simp add: getOperation_def)

lemma getOperation_returns_iff:
  "(\<exists>operation. getOperation md r = Inr operation) \<longleftrightarrow> typesRecoverable md r"
proof
  assume "\<exists>operation. getOperation md r = Inr operation"
  then have "(\<exists>ps. getPathParams md r = Inr ps) \<and> (\<exists>qs. getQueryParams md r = Inr qs)
      \<and> (\<exists>b. getRequestBody md r = Inr b)"
    by (auto simp: getOperation_def split: sum.splits)
  then show "typesRecoverable md r"
    by (simp only: getPathParams_returns_iff getQueryParams_returns_iff
        getRequestBody_returns_iff typesRecoverable_def)
next
  assume "typesRecoverable md r"
  then have "(\<exists>ps. getPathParams md r = Inr ps) \<and> (\<exists>qs. getQueryParams md r = Inr qs)
      \<and> (\<exists>b. getRequestBody md r = Inr b)"
    by (simp only: getPathParams_returns_iff getQueryParams_returns_iff
        getRequestBody_returns_iff typesRecoverable_def)
  then show "\<exists>operation. getOperation md r = Inr operation"
    using getOperation_parts by blast
qed

lemma map_of_omitted:
  "distinct (map fst object) \<Longrightarrow>
   map_of (filter (\<lambda>(k, v). \<not> P v) object) k
     = (case map_of object k of None \<Rightarrow> None | Some v \<Rightarrow> if P v then None else Some v)"
proof (induction object)
  case Nil
  show ?case by simp
next
  case (Cons kv object)
  obtain k' v' where kv: "kv = (k', v')" by (cases kv)
  show ?case
  proof (cases "k' = k")
    case True
    with Cons.prems kv have "map_of object k = None"
      by (simp add: map_of_eq_None_iff)
    with Cons kv True show ?thesis by simp
  next
    case False
    with Cons kv show ?thesis by simp
  qed
qed

lemma schemaOk_specPathParam:
  "\<exists>s. getProp (specPathParam md r name) ''schema'' = Some s \<and> schemaOk s"
  by (simp add: specPathParam_def split: option.splits)

lemma schemaOk_specQueryParam:
  "\<exists>s. getProp (specQueryParam md r meta) ''schema'' = Some s \<and> schemaOk s"
  by (simp add: specQueryParam_def split: option.splits)

lemma schemaOk_specQueriesParam:
  "\<exists>s. getProp (specQueriesParam r meta t) ''schema'' = Some s \<and> schemaOk s"
  by (simp add: specQueriesParam_def)

lemma getQueryParams_entries:
  assumes "getQueryParams md r = Inr queryParams" and "q \<in> set queryParams"
  shows "getProp q ''in'' = Some (JStr ''query'')
     \<and> (\<exists>s. getProp q ''schema'' = Some s \<and> schemaOk s)"
proof -
  from assms(1) have "queryTypesOk md r"
    using getQueryParams_returns_iff by blast
  from getQueryParams_spec [OF this] assms
  have "q \<in> specQueryParam md r ` set (params r)
      \<or> (\<exists>meta t. q = specQueriesParam r meta t)"
    by (auto split: option.splits)
  then show ?thesis
    by (auto simp: specQueryParam_def specQueriesParam_def)
qed

lemma getPathParams_entries:
  assumes "getPathParams md r = Inr pathParams" and "p \<in> set pathParams"
  shows "getProp p ''in'' = Some (JStr ''path'')
     \<and> (\<exists>s. getProp p ''schema'' = Some s \<and> schemaOk s)"
proof -
  from assms(1) have "pathTypesOk md r"
    using getPathParams_returns_iff by blast
  from getPathParams_spec [OF this] assms
  obtain name where "p = specPathParam md r name"
    by auto
  then show ?thesis
    by (simp add: specPathParam_def split: option.splits)
qed

text \<open>
  C7, as the code has it. For a route whose declared types can be recovered, the
  \<^verbatim>\<open>parameters\<close> of its operation are the path parameters, in path order,
  followed by the query parameters; and the query parameters are the entries of
  the query descriptors, in declaration order, followed by the entry of the first
  queries descriptor, which comes last wherever that descriptor was declared. (An
  empty array is dropped from the operation.) The schema of every entry carries a
  type or is a \<^verbatim>\<open>$ref\<close> object. For any other route \<^verbatim>\<open>getOperation\<close> throws a
  \<^verbatim>\<open>TypeError\<close>.
\<close>

theorem getOperation_parameters:
  "if typesRecoverable md r
   then \<exists>operation pathParams queryParams.
       getOperation md r = Inr operation
     \<and> getPathParams md r = Inr pathParams
     \<and> getQueryParams md r = Inr queryParams
     \<and> getProp operation ''parameters''
         = (if pathParams @ queryParams = [] then None
            else Some (JArr (pathParams @ queryParams)))
     \<and> map (\<lambda>p. getProp p ''name'') pathParams
         = map (\<lambda>name. Some (JStr name)) (placeholders (getFullPath r))
     \<and> queryParams
         = map (specQueryParam md r) (filter (\<lambda>p. p_type p = ''query'') (params r))
           @ (case find (\<lambda>p. p_type p = ''queries'') (params r) of
                None \<Rightarrow> []
              | Some queriesMeta \<Rightarrow>
                  (case declaredType md queriesMeta of
                     None \<Rightarrow> []
                   | Some t \<Rightarrow> [specQueriesParam r queriesMeta t]))
     \<and> (\<forall>p \<in> set pathParams. getProp p ''in'' = Some (JStr ''path''))
     \<and> (\<forall>q \<in> set queryParams. getProp q ''in'' = Some (JStr ''query''))
     \<and> (\<forall>p \<in> set (pathParams @ queryParams).
          \<exists>s. getProp p ''schema'' = Some s \<and> schemaOk s)
   else getOperation md r = Inl TypeError"
proof (cases "typesRecoverable md r")
  case False
  then have "getOperation md r = Inl TypeError"
    by (simp only: throws_iff getOperation_returns_iff) simp
  with False show ?thesis
    by (simp only: if_False)
next
  case True
  then have ok: "pathTypesOk md r" "queryTypesOk md r" "bodyTypeOk md r"
    by (simp_all add: typesRecoverable_def)
  let ?pp = "map (specPathParam md r) (placeholders (getFullPath r))"
  let ?qp = "map (specQueryParam md r) (filter (\<lambda>p. p_type p = ''query'') (params r))
           @ (case find (\<lambda>p. p_type p = ''queries'') (params r) of
                None \<Rightarrow> []
              | Some queriesMeta \<Rightarrow>
                  (case declaredType md queriesMeta of
                     None \<Rightarrow> []
                   | Some t \<Rightarrow> [specQueriesParam r queriesMeta t]))"
  have pp: "getPathParams md r = Inr ?pp"
    using ok(1) by (rule getPathParams_spec)
  have qp: "getQueryParams md r = Inr ?qp"
    using ok(2) by (rule getQueryParams_spec)
  obtain rb where rb: "getRequestBody md r = Inr rb"
    using ok(3) getRequestBody_returns_iff by blast
  let ?operation = "omitBy
            [(''operationId'', JStr (getOperationId r)),
             (''parameters'', JArr (?pp @ ?qp)),
             (''requestBody'', rb),
             (''responses'', getResponses r),
             (''summary'', JStr (getSummary r)),
             (''tags'', JArr (map JStr (getTags r)))]
            isEmpty"
  have operation: "getOperation md r = Inr ?operation"
    using pp qp rb by (rule getOperation_parts)
  have parameters: "getProp ?operation ''parameters''
      = (if ?pp @ ?qp = [] then None else Some (JArr (?pp @ ?qp)))"
    by (simp add: omitBy_def map_of_omitted)
  have names: "map (\<lambda>p. getProp p ''name'') ?pp
      = map (\<lambda>name. Some (JStr name)) (placeholders (getFullPath r))"
    by (simp add: specPathParam_def split: option.splits)
  have pin: "\<forall>p \<in> set ?pp. getProp p ''in'' = Some (JStr ''path'')"
    using getPathParams_entries [OF pp] by blast
  have qin: "\<forall>q \<in> set ?qp. getProp q ''in'' = Some (JStr ''query'')"
    using getQueryParams_entries [OF qp] by blast
  have schemas: "\<forall>p \<in> set (?pp @ ?qp). \<exists>s. getProp p ''schema'' = Some s \<and> schemaOk s"
    using getPathParams_entries [OF pp] getQueryParams_entries [OF qp]
    unfolding set_append by blast
  have "\<exists>operation pathParams queryParams.
       getOperation md r = Inr operation
     \<and> getPathParams md r = Inr pathParams
     \<and> getQueryParams md r = Inr queryParams
     \<and> getProp operation ''parameters''
         = (if pathParams @ queryParams = [] then None
            else Some (JArr (pathParams @ queryParams)))
     \<and> map (\<lambda>p. getProp p ''name'') pathParams
         = map (\<lambda>name. Some (JStr name)) (placeholders (getFullPath r))
     \<and> queryParams
         = map (specQueryParam md r) (filter (\<lambda>p. p_type p = ''query'') (params r))
           @ (case find (\<lambda>p. p_type p = ''queries'') (params r) of
                None \<Rightarrow> []
              | Some queriesMeta \<Rightarrow>
                  (case declaredType md queriesMeta of
                     None \<Rightarrow> []
                   | Some t \<Rightarrow> [specQueriesParam r queriesMeta t]))
     \<and> (\<forall>p \<in> set pathParams. getProp p ''in'' = Some (JStr ''path''))
     \<and> (\<forall>q \<in> set queryParams. getProp q ''in'' = Some (JStr ''query''))
     \<and> (\<forall>p \<in> set (pathParams @ queryParams).
          \<exists>s. getProp p ''schema'' = Some s \<and> schemaOk s)"
    using operation pp qp parameters names pin qin schemas by blast
  with True show ?thesis
    by (simp only: if_True)
qed

theorem getOperation_parameters_witness:
  "typesRecoverable exMetadata exRoute
   \<and> (\<exists>operation. getOperation exMetadata exRoute = Inr operation
        \<and> getProp operation ''parameters'' =
            Some (JArr
              [JObj [(''in'', JStr ''path''), (''name'', JStr ''id''),
                     (''required'', JBool False), (''schema'', JObj [(''type'', JStr ''number'')])],
               JObj [(''in'', JStr ''query''), (''name'', JStr ''limit''),
                     (''required'', JBool True), (''schema'', JObj [(''type'', JStr ''number'')])],
               JObj [(''in'', JStr ''query''), (''name'', JStr ''ListQuery''),
                     (''required'', JBool False),
                     (''schema'',
                      JObj [(''$ref'', JStr ''#/components/schemas/ListQuery'')])]]))"
proof -
  have h: "typesRecoverable exMetadata exRoute"
    by code_simp
  have pp: "getPathParams exMetadata exRoute =
      Inr [JObj [(''in'', JStr ''path''), (''name'', JStr ''id''),
                 (''required'', JBool False), (''schema'', JObj [(''type'', JStr ''number'')])]]"
    by code_simp
  have qp: "getQueryParams exMetadata exRoute =
      Inr [JObj [(''in'', JStr ''query''), (''name'', JStr ''limit''),
                 (''required'', JBool True), (''schema'', JObj [(''type'', JStr ''number'')])],
           JObj [(''in'', JStr ''query''), (''name'', JStr ''ListQuery''),
                 (''required'', JBool False),
                 (''schema'', JObj [(''$ref'', JStr ''#/components/schemas/ListQuery'')])]]"
    by code_simp
  from getOperation_parameters [of exMetadata exRoute, unfolded if_P [OF h]]
  obtain operation pathParams queryParams where
    "getOperation exMetadata exRoute = Inr operation"
    "getPathParams exMetadata exRoute = Inr pathParams"
    "getQueryParams exMetadata exRoute = Inr queryParams"
    "getProp operation ''parameters''
       = (if pathParams @ queryParams = [] then None
          else Some (JArr (pathParams @ queryParams)))"
    by blast
  with pp qp h show ?thesis
    by auto
qed

text \<open>
  That the query parameters stand in declaration order fails for a route that
  declares its queries descriptor before a query descriptor: the entry of the
  former (\<^verbatim>\<open>ListQuery\<close>) comes after that of the latter (\<^verbatim>\<open>limit\<close>). And
  without recorded parameter types there is no operation at all.
\<close>

theorem getOperation_parameters_counterexample:
  "params exRoute = [idParam, filterParam, limitParam]
   \<and> p_type filterParam = ''queries'' \<and> p_type limitParam = ''query''
   \<and> valueAt (projr (getOperation exMetadata exRoute)) [''parameters''] =
       Some (JArr
         [JObj [(''in'', JStr ''path''), (''name'', JStr ''id''),
                (''required'', JBool False), (''schema'', JObj [(''type'', JStr ''number'')])],
          JObj [(''in'', JStr ''query''), (''name'', JStr ''limit''),
                (''required'', JBool True), (''schema'', JObj [(''type'', JStr ''number'')])],
          JObj [(''in'', JStr ''query''), (''name'', JStr ''ListQuery''),
                (''required'', JBool False),
                (''schema'', JObj [(''$ref'', JStr ''#/components/schemas/ListQuery'')])]])
   \<and> getOperation exMetadata exRoute \<noteq> Inl TypeError
   \<and> getOperation noMetadata exRoute = Inl TypeError"
  by code_simp

section \<open>When the functions return\<close>

lemma routePath_returns_iff:
  "(\<exists>fragment. routePath md r = Inr fragment) \<longleftrightarrow> typesRecoverable md r"
proof -
  have "(\<exists>fragment. routePath md r = Inr fragment)
      \<longleftrightarrow> (\<exists>operation. getOperation md r = Inr operation)"
    by (cases "getOperation md r") (simp_all add: routePath_def)
  then show ?thesis
    by (simp only: getOperation_returns_iff)
qed

lemma getPaths_returns_iff:
  "(\<exists>paths. getPaths md routes = Inr paths) \<longleftrightarrow> (\<forall>r \<in> set routes. typesRecoverable md r)"
proof -
  have "(\<exists>paths. getPaths md routes = Inr paths)
      \<longleftrightarrow> (\<exists>fragments. mapE (routePath md) routes = Inr fragments)"
    by (cases "mapE (routePath md) routes") (simp_all add: getPaths_def)
  then show ?thesis
    by (simp only: mapE_returns_iff routePath_returns_iff)
qed

lemma getSpec_returns_iff:
  "(\<exists>doc. getSpec md routes = Inr doc) \<longleftrightarrow> (\<forall>r \<in> set routes. typesRecoverable md r)"
proof -
  have "(\<exists>doc. getSpec md routes = Inr doc) \<longleftrightarrow> (\<exists>paths. getPaths md routes = Inr paths)"
    by (cases "getPaths md routes") (simp_all add: getSpec_def)
  then show ?thesis
    by (simp only: getPaths_returns_iff)
qed

text \<open>
  C6, as the code has it. The functions that read declared types return exactly
  when those types can be recovered from the reflection store, and throw a
  \<^verbatim>\<open>TypeError\<close> otherwise: \<^verbatim>\<open>getPathParams\<close> for the path descriptors that a
  placeholder matches, \<^verbatim>\<open>getQueryParams\<close> for the query descriptors and the first
  queries descriptor, \<^verbatim>\<open>getRequestBody\<close> for the first body descriptor,
  \<^verbatim>\<open>getOperation\<close> for all of these, and \<^verbatim>\<open>getPaths\<close> and \<^verbatim>\<open>getSpec\<close> for all
  of these in every route. (The other functions read no declared type and always
  return.)
\<close>

theorem getSpec_returns_when_types_recoverable:
  "(if \<forall>r \<in> set routes. typesRecoverable md r
    then (\<exists>doc. getSpec md routes = Inr doc) \<and> (\<exists>paths. getPaths md routes = Inr paths)
    else getSpec md routes = Inl TypeError \<and> getPaths md routes = Inl TypeError)
   \<and> (if typesRecoverable md r then \<exists>operation. getOperation md r = Inr operation
       else getOperation md r = Inl TypeError)
   \<and> (if pathTypesOk md r then \<exists>ps. getPathParams md r = Inr ps
       else getPathParams md r = Inl TypeError)
   \<and> (if queryTypesOk md r then \<exists>qs. getQueryParams md r = Inr qs
       else getQueryParams md r = Inl TypeError)
   \<and> (if bodyTypeOk md r then \<exists>b. getRequestBody md r = Inr b
       else getRequestBody md r = Inl TypeError)"
  by (simp only: throws_iff getSpec_returns_iff getPaths_returns_iff getOperation_returns_iff
      getPathParams_returns_iff getQueryParams_returns_iff getRequestBody_returns_iff)
     simp

theorem getSpec_returns_when_types_recoverable_witness:
  "typesRecoverable exMetadata exRoute \<and> typesRecoverable exMetadata listRoute
   \<and> (\<exists>doc. getSpec exMetadata [exRoute, listRoute] = Inr doc)
   \<and> \<not> typesRecoverable noMetadata exRoute
   \<and> getOperation noMetadata exRoute = Inl TypeError"
proof -
  have a: "typesRecoverable exMetadata exRoute" "typesRecoverable exMetadata listRoute"
    by code_simp+
  then have all: "\<forall>r \<in> set [exRoute, listRoute]. typesRecoverable exMetadata r"
    by simp
  have b: "\<not> typesRecoverable noMetadata exRoute"
    by code_simp
  from all getSpec_returns_when_types_recoverable [of "[exRoute, listRoute]" exMetadata exRoute]
  have "\<exists>doc. getSpec exMetadata [exRoute, listRoute] = Inr doc"
    by presburger
  moreover from b getSpec_returns_when_types_recoverable [of "[]" noMetadata exRoute]
  have "getOperation noMetadata exRoute = Inl TypeError"
    by presburger
  ultimately show ?thesis
    using a b by blast
qed

text \<open>
  That nothing ever throws fails when the reflection store holds no parameter
  types for the method of a route that declares a path parameter.
\<close>

theorem getSpec_missing_types_counterexample:
  "getSpec noMetadata [exRoute] = Inl TypeError"
  by code_simp

section \<open>The document\<close>











section \<open>Merging: copies and lookups\<close>

lemma update_absent: "map_of obj k = None \<Longrightarrow> AList.update k v obj = obj @ [(k, v)]"
  by (induction obj) (auto split: if_splits)

lemma mergeArr_copy:
  "(\<And>y. y \<in> set ys \<Longrightarrow> mergeValue None y = y) \<Longrightarrow> mergeArr [] ys = ys"
  by (induction ys) simp_all

lemma mergeObj_copy:
  assumes "\<And>kv. kv \<in> set kvs \<Longrightarrow> mergeValue None (snd kv) = snd kv"
    and "distinct (map fst kvs)"
    and "fst ` set obj \<inter> fst ` set kvs = {}"
  shows "mergeObj obj kvs = obj @ kvs"
  using assms
proof (induction kvs arbitrary: obj)
  case Nil
  show ?case by simp
next
  case (Cons kv kvs)
  obtain k v where kv: "kv = (k, v)" by (cases kv)
  from Cons.prems(3) kv have absent: "map_of obj k = None"
    by (auto simp: map_of_eq_None_iff)
  from Cons.prems(1) [of kv] kv have copy: "mergeValue None v = v"
    by simp
  have "fst ` set (obj @ [(k, v)]) \<inter> fst ` set kvs = {}"
    using Cons.prems(2,3) kv by auto
  moreover have "distinct (map fst kvs)"
    using Cons.prems(2) by simp
  ultimately have "mergeObj (obj @ [(k, v)]) kvs = (obj @ [(k, v)]) @ kvs"
    using Cons.IH [of "obj @ [(k, v)]"] Cons.prems(1) by simp
  then show ?case
    by (simp add: kv absent copy update_absent)
qed

text \<open>Merging a value built from literals into an absent key copies it.\<close>

lemma mergeValue_copy: "literal v \<Longrightarrow> mergeValue None v = v"
proof (induction v)
  case (JArr xs)
  then have "mergeArr [] xs = xs"
    by (intro mergeArr_copy) simp
  then show ?case by simp
next
  case (JObj kvs)
  have "\<And>kv. kv \<in> set kvs \<Longrightarrow> mergeValue None (snd kv) = snd kv"
  proof -
    fix kv
    assume m: "kv \<in> set kvs"
    obtain k v where kv: "kv = (k, v)" by (cases kv)
    from JObj.prems m have "literal (snd kv)" by simp
    with JObj.IH [of kv v] m kv show "mergeValue None (snd kv) = snd kv" by simp
  qed
  moreover from JObj.prems have "distinct (map fst kvs)" by simp
  ultimately have "mergeObj [] kvs = [] @ kvs"
    by (intro mergeObj_copy) simp_all
  then show ?case by simp
qed simp_all

text \<open>The fields of a merged object.\<close>

lemma map_of_mergeObj:
  "distinct (map fst kvs) \<Longrightarrow>
   map_of (mergeObj obj kvs) k
     = (case map_of kvs k of
          None \<Rightarrow> map_of obj k
        | Some v \<Rightarrow> Some (mergeValue (map_of obj k) v))"
proof (induction kvs arbitrary: obj)
  case Nil
  show ?case by simp
next
  case (Cons kv kvs)
  obtain k' v' where kv: "kv = (k', v')" by (cases kv)
  let ?obj = "AList.update k' (mergeValue (map_of obj k') v') obj"
  from Cons.prems have d: "distinct (map fst kvs)" by simp
  have step: "map_of (mergeObj ?obj kvs) k
     = (case map_of kvs k of
          None \<Rightarrow> map_of ?obj k
        | Some v \<Rightarrow> Some (mergeValue (map_of ?obj k) v))"
    using d by (rule Cons.IH)
  show ?case
  proof (cases "k = k'")
    case True
    with Cons.prems kv have "map_of kvs k = None"
      by (simp add: map_of_eq_None_iff)
    with step True kv show ?thesis
      by (simp add: update_conv')
  next
    case False
    with step kv show ?thesis
      by (cases "map_of kvs k") (simp_all add: update_conv')
  qed
qed

section \<open>Operations are built from literals\<close>

lemma literal_specPathParam: "literal (specPathParam md r name)"
  by (simp add: specPathParam_def split: option.splits)

lemma literal_specQueryParam: "literal (specQueryParam md r meta)"
  by (simp add: specQueryParam_def)

lemma literal_specQueriesParam: "literal (specQueriesParam r meta t)"
  by (simp add: specQueriesParam_def)

lemma literal_getResponses: "literal (getResponses r)"
  by (simp add: getResponses_def Let_def)

lemma literal_getRequestBody: "getRequestBody md r = Inr b \<Longrightarrow> literal b"
  by (auto simp: getRequestBody_def makeRef_def split: option.splits sum.splits)

lemma literal_getPathParams:
  assumes "getPathParams md r = Inr pathParams" and "p \<in> set pathParams"
  shows "literal p"
proof -
  from assms(1) have "pathTypesOk md r"
    using getPathParams_returns_iff by blast
  from getPathParams_spec [OF this] assms
  obtain name where "p = specPathParam md r name"
    by auto
  then show ?thesis
    by (simp add: literal_specPathParam)
qed

lemma literal_getQueryParams:
  assumes "getQueryParams md r = Inr queryParams" and "q \<in> set queryParams"
  shows "literal q"
proof -
  from assms(1) have "queryTypesOk md r"
    using getQueryParams_returns_iff by blast
  from getQueryParams_spec [OF this] assms
  have "q \<in> specQueryParam md r ` set (params r)
      \<or> (\<exists>meta t. q = specQueriesParam r meta t)"
    by (auto split: option.splits)
  then show ?thesis
    by (auto simp: literal_specQueryParam literal_specQueriesParam)
qed

lemma literal_omitBy:
  "distinct (map fst object) \<Longrightarrow> \<forall>kv \<in> set object. literal (snd kv)
   \<Longrightarrow> literal (omitBy object P)"
  by (auto simp: omitBy_def distinct_map_filter)

lemma literal_getOperation:
  assumes "getOperation md r = Inr operation"
  shows "literal operation"
proof -
  from assms obtain pathParams queryParams requestBody where
    parts: "getPathParams md r = Inr pathParams" "getQueryParams md r = Inr queryParams"
      "getRequestBody md r = Inr requestBody"
    by (auto simp: getOperation_def split: sum.splits)
  have "literal (JArr (pathParams @ queryParams))"
    using literal_getPathParams [OF parts(1)] literal_getQueryParams [OF parts(2)] by auto
  moreover have "literal requestBody"
    using parts(3) by (rule literal_getRequestBody)
  moreover have "literal (JArr (map JStr (getTags r)))"
    by simp
  ultimately have "literal (omitBy
            [(''operationId'', JStr (getOperationId r)),
             (''parameters'', JArr (pathParams @ queryParams)),
             (''requestBody'', requestBody),
             (''responses'', getResponses r),
             (''summary'', JStr (getSummary r)),
             (''tags'', JArr (map JStr (getTags r)))]
            isEmpty)"
    by (intro literal_omitBy) (simp_all add: literal_getResponses)
  with getOperation_parts [OF parts] assms show ?thesis
    by simp
qed

lemma getOperation_object:
  assumes "getOperation md r = Inr operation"
  shows "\<exists>fields. operation = JObj fields \<and> distinct (map fst fields)
     \<and> map_of fields ''operationId'' = Some (JStr (getOperationId r))"
proof -
  from assms obtain pathParams queryParams requestBody where
    parts: "getPathParams md r = Inr pathParams" "getQueryParams md r = Inr queryParams"
      "getRequestBody md r = Inr requestBody"
    by (auto simp: getOperation_def split: sum.splits)
  define object where "object =
            [(''operationId'', JStr (getOperationId r)),
             (''parameters'', JArr (pathParams @ queryParams)),
             (''requestBody'', requestBody),
             (''responses'', getResponses r),
             (''summary'', JStr (getSummary r)),
             (''tags'', JArr (map JStr (getTags r)))]"
  have d: "distinct (map fst object)"
    by (simp add: object_def)
  have id: "map_of object ''operationId'' = Some (JStr (getOperationId r))"
    by (simp add: object_def)
  have nonempty: "\<not> isEmpty (JStr (getOperationId r))"
    by (simp add: getOperationId_def)
  from getOperation_parts [OF parts] assms have
    operation: "operation = JObj (filter (\<lambda>(k, v). \<not> isEmpty v) object)"
    by (simp add: omitBy_def object_def)
  moreover have "distinct (map fst (filter (\<lambda>(k, v). \<not> isEmpty v) object))"
    using d by (rule distinct_map_filter)
  moreover have "map_of (filter (\<lambda>(k, v). \<not> isEmpty v) object) ''operationId''
      = Some (JStr (getOperationId r))"
    using nonempty by (simp only: map_of_omitted [OF d] id) simp
  ultimately show ?thesis
    by blast
qed

section \<open>Paths of two routes\<close>

lemma getPaths_two:
  assumes "getOperation md a = Inr opa" and "getOperation md b = Inr opb"
  shows "getPaths md [a, b] =
     Inr (JObj (mergeObj [(getFullPath a, JObj [(a_type (action a), opa)])]
                  [(getFullPath b, JObj [(a_type (action b), opb)])]))"
  using assms by (simp add: getPaths_def routePath_def)

text \<open>
  C4, as the code has it. Let \<open>a\<close> and \<open>b\<close> be two routes whose declared types can be
  recovered. If their full paths differ, \<^verbatim>\<open>getPaths([a, b])\<close> has exactly two path
  keys, each holding only the method and operation of its own route. If they share
  the full path and differ in the method, both methods stand under the one path,
  each with its own operation. If they share path and method, the one entry is the
  operation of \<open>b\<close> merged over that of \<open>a\<close> field by field: a field that only the
  operation of \<open>a\<close> has is kept, and every field of the operation of \<open>b\<close> is merged
  into the field of \<open>a\<close> of the same name; the operation id, a string in both, is
  that of \<open>b\<close>. If the declared types of \<open>a\<close> or of \<open>b\<close> cannot be recovered,
  \<^verbatim>\<open>getPaths\<close> throws a \<^verbatim>\<open>TypeError\<close>.
\<close>

theorem getPaths_pair:
  "if typesRecoverable md a \<and> typesRecoverable md b
   then \<exists>opa opb.
       getOperation md a = Inr opa \<and> getOperation md b = Inr opb
     \<and> (getFullPath a \<noteq> getFullPath b \<longrightarrow>
          getPaths md [a, b] =
            Inr (JObj [(getFullPath a, JObj [(a_type (action a), opa)]),
                       (getFullPath b, JObj [(a_type (action b), opb)])]))
     \<and> (getFullPath a = getFullPath b \<and> a_type (action a) \<noteq> a_type (action b) \<longrightarrow>
          getPaths md [a, b] =
            Inr (JObj [(getFullPath a,
                        JObj [(a_type (action a), opa), (a_type (action b), opb)])]))
     \<and> (getFullPath a = getFullPath b \<and> a_type (action a) = a_type (action b) \<longrightarrow>
          (\<exists>merged.
              getPaths md [a, b] = Inr (JObj [(getFullPath a, JObj [(a_type (action a), merged)])])
            \<and> (\<forall>k. getProp merged k =
                  (case getProp opb k of
                     None \<Rightarrow> getProp opa k
                   | Some v \<Rightarrow> Some (mergeValue (getProp opa k) v)))
            \<and> getProp merged ''operationId'' = Some (JStr (getOperationId b))))
   else getPaths md [a, b] = Inl TypeError"
proof (cases "typesRecoverable md a \<and> typesRecoverable md b")
  case False
  then have "\<not> (\<forall>r \<in> set [a, b]. typesRecoverable md r)"
    by simp
  then have "getPaths md [a, b] = Inl TypeError"
    by (simp only: throws_iff getPaths_returns_iff) simp
  then show ?thesis
    unfolding if_not_P [OF False] .
next
  case True
  from True obtain opa opb where
    ops: "getOperation md a = Inr opa" "getOperation md b = Inr opb"
    using getOperation_returns_iff by blast
  from getOperation_object [OF ops(1)] obtain fa where
    fa: "opa = JObj fa" "distinct (map fst fa)"
    by blast
  from getOperation_object [OF ops(2)] obtain fb where
    fb: "opb = JObj fb" "distinct (map fst fb)"
      "map_of fb ''operationId'' = Some (JStr (getOperationId b))"
    by blast
  have copy: "mergeValue None opb = opb"
    using literal_getOperation [OF ops(2)] by (rule mergeValue_copy)
  have copy_item: "mergeValue None (JObj [(a_type (action b), opb)])
      = JObj [(a_type (action b), opb)]"
    using literal_getOperation [OF ops(2)] by (intro mergeValue_copy) simp
  note paths = getPaths_two [OF ops]
  have distinct_paths: "getPaths md [a, b] =
            Inr (JObj [(getFullPath a, JObj [(a_type (action a), opa)]),
                       (getFullPath b, JObj [(a_type (action b), opb)])])"
    if "getFullPath a \<noteq> getFullPath b"
    using that copy_item by (simp add: paths del: mergeValue.simps)
  have distinct_methods: "getPaths md [a, b] =
            Inr (JObj [(getFullPath a,
                        JObj [(a_type (action a), opa), (a_type (action b), opb)])])"
    if "getFullPath a = getFullPath b" and "a_type (action a) \<noteq> a_type (action b)"
    using that copy by (simp add: paths)
  have same: "\<exists>merged.
              getPaths md [a, b] = Inr (JObj [(getFullPath a, JObj [(a_type (action a), merged)])])
            \<and> (\<forall>k. getProp merged k =
                  (case getProp opb k of
                     None \<Rightarrow> getProp opa k
                   | Some v \<Rightarrow> Some (mergeValue (getProp opa k) v)))
            \<and> getProp merged ''operationId'' = Some (JStr (getOperationId b))"
    if "getFullPath a = getFullPath b" and "a_type (action a) = a_type (action b)"
  proof (intro exI [of _ "JObj (mergeObj fa fb)"] conjI)
    show "getPaths md [a, b] =
        Inr (JObj [(getFullPath a, JObj [(a_type (action a), JObj (mergeObj fa fb))])])"
      using that by (simp add: paths fa(1) fb(1))
    show "\<forall>k. getProp (JObj (mergeObj fa fb)) k =
        (case getProp opb k of
           None \<Rightarrow> getProp opa k
         | Some v \<Rightarrow> Some (mergeValue (getProp opa k) v))"
      unfolding fa(1) fb(1) getProp.simps map_of_mergeObj [OF fb(2)] by (rule allI) (rule refl)
    show "getProp (JObj (mergeObj fa fb)) ''operationId'' = Some (JStr (getOperationId b))"
      by (simp add: map_of_mergeObj [OF fb(2)] fb(3))
  qed
  from ops distinct_paths distinct_methods same have "\<exists>opa opb.
       getOperation md a = Inr opa \<and> getOperation md b = Inr opb
     \<and> (getFullPath a \<noteq> getFullPath b \<longrightarrow>
          getPaths md [a, b] =
            Inr (JObj [(getFullPath a, JObj [(a_type (action a), opa)]),
                       (getFullPath b, JObj [(a_type (action b), opb)])]))
     \<and> (getFullPath a = getFullPath b \<and> a_type (action a) \<noteq> a_type (action b) \<longrightarrow>
          getPaths md [a, b] =
            Inr (JObj [(getFullPath a,
                        JObj [(a_type (action a), opa), (a_type (action b), opb)])]))
     \<and> (getFullPath a = getFullPath b \<and> a_type (action a) = a_type (action b) \<longrightarrow>
          (\<exists>merged.
              getPaths md [a, b] = Inr (JObj [(getFullPath a, JObj [(a_type (action a), merged)])])
            \<and> (\<forall>k. getProp merged k =
                  (case getProp opb k of
                     None \<Rightarrow> getProp opa k
                   | Some v \<Rightarrow> Some (mergeValue (getProp opa k) v)))
            \<and> getProp merged ''operationId'' = Some (JStr (getOperationId b))))"
    by blast
  then show ?thesis
    unfolding if_P [OF True] .
qed

theorem getPaths_pair_witness:
  "typesRecoverable exMetadata listRoute \<and> typesRecoverable exMetadata itemRoute
   \<and> typesRecoverable exMetadata createRoute \<and> typesRecoverable exMetadata updateRoute
   \<and> typesRecoverable exMetadata replaceRoute
   \<and> (\<exists>paths. getPaths exMetadata [listRoute, itemRoute] = Inr paths
        \<and> ownKeys paths = [''/users'', ''/users/{id}''])
   \<and> (\<exists>get post. getPaths exMetadata [listRoute, createRoute] =
          Inr (JObj [(''/users'', JObj [(''get'', get), (''post'', post)])]))
   \<and> (\<exists>merged. getPaths exMetadata [updateRoute, replaceRoute] =
          Inr (JObj [(''/users'', JObj [(''put'', merged)])])
        \<and> getProp merged ''operationId'' = Some (JStr ''UsersController.replaceUser'')
        \<and> getProp merged ''requestBody''
            = getProp (projr (getOperation exMetadata updateRoute)) ''requestBody''
        \<and> getProp merged ''requestBody'' \<noteq> None)
   \<and> map_option ownKeys
        (valueAt (projr (getPaths exMetadata [updateRoute, replaceRoute]))
           [''/users'', ''put'', ''responses''])
       = Some [''200'', ''201'']
   \<and> valueAt (projr (getPaths exMetadata [exRoute, exRouteBare]))
        [''/api/users/{id}'', ''get'', ''parameters'']
       = Some (JArr
           [JObj [(''in'', JStr ''path''), (''name'', JStr ''id''),
                  (''required'', JBool True), (''schema'', JObj [(''type'', JStr ''string'')])],
            JObj [(''in'', JStr ''query''), (''name'', JStr ''limit''),
                  (''required'', JBool True), (''schema'', JObj [(''type'', JStr ''number'')])],
            JObj [(''in'', JStr ''query''), (''name'', JStr ''ListQuery''),
                  (''required'', JBool False),
                  (''schema'', JObj [(''$ref'', JStr ''#/components/schemas/ListQuery'')])]])
   \<and> \<not> typesRecoverable noMetadata updateRoute
   \<and> getPaths noMetadata [listRoute, updateRoute] = Inl TypeError"
proof -
  have pins: "map_option ownKeys
        (valueAt (projr (getPaths exMetadata [updateRoute, replaceRoute]))
           [''/users'', ''put'', ''responses''])
       = Some [''200'', ''201'']"
    "valueAt (projr (getPaths exMetadata [exRoute, exRouteBare]))
        [''/api/users/{id}'', ''get'', ''parameters'']
       = Some (JArr
           [JObj [(''in'', JStr ''path''), (''name'', JStr ''id''),
                  (''required'', JBool True), (''schema'', JObj [(''type'', JStr ''string'')])],
            JObj [(''in'', JStr ''query''), (''name'', JStr ''limit''),
                  (''required'', JBool True), (''schema'', JObj [(''type'', JStr ''number'')])],
            JObj [(''in'', JStr ''query''), (''name'', JStr ''ListQuery''),
                  (''required'', JBool False),
                  (''schema'', JObj [(''$ref'', JStr ''#/components/schemas/ListQuery'')])]])"
    by code_simp+
  have no: "\<not> typesRecoverable noMetadata updateRoute"
    by code_simp
  then have "\<not> (typesRecoverable noMetadata listRoute \<and> typesRecoverable noMetadata updateRoute)"
    by simp
  from getPaths_pair [of noMetadata listRoute updateRoute, unfolded if_not_P [OF this]]
  have throws: "getPaths noMetadata [listRoute, updateRoute] = Inl TypeError" .
  have ok: "typesRecoverable exMetadata listRoute" "typesRecoverable exMetadata itemRoute"
    "typesRecoverable exMetadata createRoute" "typesRecoverable exMetadata updateRoute"
    "typesRecoverable exMetadata replaceRoute"
    by code_simp+
  have paths: "getFullPath listRoute = ''/users''" "getFullPath itemRoute = ''/users/{id}''"
    "getFullPath createRoute = ''/users''" "getFullPath updateRoute = ''/users''"
    "getFullPath replaceRoute = ''/users''"
    by code_simp+
  have methods: "a_type (action listRoute) = ''get''" "a_type (action createRoute) = ''post''"
    "a_type (action updateRoute) = ''put''" "a_type (action replaceRoute) = ''put''"
    by code_simp+
  have id: "getOperationId replaceRoute = ''UsersController.replaceUser''"
    by code_simp
  have body: "getProp (projr (getOperation exMetadata replaceRoute)) ''requestBody'' = None"
    "getProp (projr (getOperation exMetadata updateRoute)) ''requestBody'' \<noteq> None"
    by code_simp+
  from getPaths_pair [of exMetadata listRoute itemRoute, unfolded if_P [OF conjI [OF ok(1) ok(2)]]]
  have first: "\<exists>paths. getPaths exMetadata [listRoute, itemRoute] = Inr paths
        \<and> ownKeys paths = [''/users'', ''/users/{id}'']"
    unfolding paths by auto
  from getPaths_pair [of exMetadata listRoute createRoute, unfolded if_P [OF conjI [OF ok(1) ok(3)]]]
  have second: "\<exists>get post. getPaths exMetadata [listRoute, createRoute] =
          Inr (JObj [(''/users'', JObj [(''get'', get), (''post'', post)])])"
    unfolding paths methods by auto
  from getPaths_pair [of exMetadata updateRoute replaceRoute, unfolded if_P [OF conjI [OF ok(4) ok(5)]]]
  obtain opa opb merged where
    ops: "getOperation exMetadata updateRoute = Inr opa"
      "getOperation exMetadata replaceRoute = Inr opb"
    and merged: "getPaths exMetadata [updateRoute, replaceRoute] =
          Inr (JObj [(''/users'', JObj [(''put'', merged)])])"
      "\<forall>k. getProp merged k =
          (case getProp opb k of
             None \<Rightarrow> getProp opa k
           | Some v \<Rightarrow> Some (mergeValue (getProp opa k) v))"
      "getProp merged ''operationId'' = Some (JStr (getOperationId replaceRoute))"
    unfolding paths methods by auto
  from body ops have "getProp opb ''requestBody'' = None"
    "getProp opa ''requestBody'' \<noteq> None"
    by simp_all
  with merged(2) ops(1) have "getProp merged ''requestBody''
      = getProp (projr (getOperation exMetadata updateRoute)) ''requestBody''"
    "getProp merged ''requestBody'' \<noteq> None"
    by simp_all
  with merged(1,3) id have third: "\<exists>merged. getPaths exMetadata [updateRoute, replaceRoute] =
          Inr (JObj [(''/users'', JObj [(''put'', merged)])])
        \<and> getProp merged ''operationId'' = Some (JStr ''UsersController.replaceUser'')
        \<and> getProp merged ''requestBody''
            = getProp (projr (getOperation exMetadata updateRoute)) ''requestBody''
        \<and> getProp merged ''requestBody'' \<noteq> None"
    by auto
  from ok first second third pins no throws show ?thesis
    by blast
qed

text \<open>
  That every pair of routes gets a paths object fails when the reflection store
  holds no parameter types for the method of a route that declares parameters.
\<close>

theorem getPaths_pair_counterexample:
  "typesRecoverable noMetadata listRoute
   \<and> pathMeta exRoute ''id'' = Some idParam
   \<and> getParamTypes noMetadata (p_object idParam) (p_method idParam) = None
   \<and> getPaths noMetadata [exRoute, listRoute] = Inl TypeError"
  by code_simp

end
